(* ===== verification/Prelude.thy ===== *)
theory Prelude
  imports Main "HOL-Library.Word"
begin

text \<open>
  Shared vocabulary of the development. Python's \<open>str\<close> is a sequence of Unicode
  code points, so a string of the program is a \<open>nat list\<close> (\<open>ustr\<close>); ASCII
  literals are written \<open>U ''abc''\<close>. Bytes (file contents, the PDF handed to the
  remote service) are \<open>8 word\<close> lists. The theory also holds the character classes
  used by the JSON scanner, and Python's \<open>str(int)\<close> (decimal printing) with its
  inverse, which both the JSON printer and the inspector use.
\<close>

type_synonym ustr = "nat list"
type_synonym byte = "8 word"
type_synonym bytes = "byte list"

abbreviation U :: "string \<Rightarrow> ustr" where
  "U s \<equiv> map of_char s"

named_theorems charclass_simps "facts deciding the character class of a code point"

subsection \<open>Character classes\<close>

definition is_digit :: "nat \<Rightarrow> bool" where
  "is_digit c \<longleftrightarrow> 48 \<le> c \<and> c \<le> 57"

text \<open>JSON whitespace, the class \<open>[ \t\n\r]\<close> of CPython's \<open>json\<close> module.\<close>

definition is_ws :: "nat \<Rightarrow> bool" where
  "is_ws c \<longleftrightarrow> c = 32 \<or> c = 9 \<or> c = 10 \<or> c = 13"

definition is_surrogate :: "nat \<Rightarrow> bool" where
  "is_surrogate c \<longleftrightarrow> 55296 \<le> c \<and> c \<le> 57343"

declare is_digit_def [charclass_simps] is_ws_def [charclass_simps]
  is_surrogate_def [charclass_simps]

subsection \<open>Decimal integers: Python's \<open>str(int)\<close> and its inverse\<close>

fun nat_digits :: "nat \<Rightarrow> nat list" where
  "nat_digits n = (if n < 10 then [n] else nat_digits (n div 10) @ [n mod 10])"

declare nat_digits.simps [simp del]

definition show_nat :: "nat \<Rightarrow> ustr" where
  "show_nat n = map (\<lambda>d. d + 48) (nat_digits n)"

definition show_int :: "int \<Rightarrow> ustr" where
  "show_int i = (if i < 0 then 45 # show_nat (nat (- i)) else show_nat (nat i))"

definition digits_val :: "ustr \<Rightarrow> nat" where
  "digits_val ds = foldl (\<lambda>a c. 10 * a + (c - 48)) 0 ds"

subsection \<open>Lemmas on digits\<close>

lemma nat_digits_less: "d \<in> set (nat_digits n) \<Longrightarrow> d < 10"
proof (induction n rule: nat_digits.induct)
  case (1 n)
  then show ?case
    by (cases "n < 10") (auto simp: nat_digits.simps [of n])
qed

lemma nat_digits_nonempty [simp]: "nat_digits n \<noteq> []"
  by (subst nat_digits.simps) simp

lemma foldl_digits_append:
  "foldl (\<lambda>a c. 10 * a + (c - 48)) a (xs @ [x]) = 10 * foldl (\<lambda>a c. 10 * a + (c - 48)) a xs + (x - 48)"
  by simp

lemma digits_val_show_nat [simp]: "digits_val (show_nat n) = n"
proof (induction n rule: nat_digits.induct)
  case (1 n)
  show ?case
  proof (cases "n < 10")
    case True
    then show ?thesis
      by (simp add: show_nat_def digits_val_def nat_digits.simps [of n])
  next
    case False
    then have "digits_val (show_nat (n div 10)) = n div 10"
      using "1.IH" by simp
    with False show ?thesis
      by (simp add: show_nat_def digits_val_def nat_digits.simps [of n])
  qed
qed

lemma show_nat_digits [simp]: "c \<in> set (show_nat n) \<Longrightarrow> is_digit c"
  using nat_digits_less by (fastforce simp: show_nat_def is_digit_def)

lemma show_nat_nonempty [simp]: "show_nat n \<noteq> []"
  by (simp add: show_nat_def)

lemma nat_digits_head_nonzero:
  "nat_digits n = d # ds \<Longrightarrow> d = 0 \<Longrightarrow> n = 0 \<and> ds = []"
proof (induction n arbitrary: d ds rule: nat_digits.induct)
  case (1 n)
  show ?case
  proof (cases "n < 10")
    case True
    with "1.prems" show ?thesis by (simp add: nat_digits.simps [of n])
  next
    case False
    then obtain ds' where "nat_digits (n div 10) = d # ds'"
      using "1.prems"(1) by (cases "nat_digits (n div 10)") (auto simp: nat_digits.simps [of n])
    with "1.IH" False "1.prems"(2) have "n div 10 = 0" by blast
    with False show ?thesis by simp
  qed
qed

text \<open>
  The shape the JSON number scanner relies on: a leading zero is the whole numeral.
\<close>

lemma show_nat_leading_zero: "show_nat n = c # r \<Longrightarrow> c = 48 \<Longrightarrow> n = 0 \<and> r = []"
  using nat_digits_head_nonzero by (cases "nat_digits n") (auto simp: show_nat_def)

lemma show_nat_Cons: "\<exists>c r. show_nat n = c # r"
  by (cases "show_nat n") auto

lemma show_int_nonneg [simp]: "0 \<le> i \<Longrightarrow> show_int i = show_nat (nat i)"
  by (simp add: show_int_def)

lemma show_int_neg [simp]: "i < 0 \<Longrightarrow> show_int i = 45 # show_nat (nat (- i))"
  by (simp add: show_int_def)

subsection \<open>Generic list lemmas\<close>

lemma takeWhile_all_append [simp]:
  "(\<And>c. c \<in> set xs \<Longrightarrow> P c) \<Longrightarrow> takeWhile P (xs @ ys) = xs @ takeWhile P ys"
  by (induction xs) auto

lemma dropWhile_all_append [simp]:
  "(\<And>c. c \<in> set xs \<Longrightarrow> P c) \<Longrightarrow> dropWhile P (xs @ ys) = dropWhile P ys"
  by (induction xs) auto

lemma takeWhile_stop [simp]: "\<not> P c \<Longrightarrow> takeWhile P (c # ys) = []"
  by simp

lemma dropWhile_stop [simp]: "\<not> P c \<Longrightarrow> dropWhile P (c # ys) = c # ys"
  by simp

end
