(* ===== verification/Json.thy ===== *)
theory Json
  imports Prelude
begin

text \<open>
  The two JSON codecs the program relies on. \<open>json.loads\<close> (line 106 of
  \<open>src/pdf_to_json.py\<close>) turns the service's reply into Python objects; it is
  modelled on CPython's C scanner (\<open>scanstring_unicode\<close>, \<open>_parse_object_unicode\<close>,
  \<open>_parse_array_unicode\<close>, \<open>_match_number_unicode\<close>, \<open>scan_once_unicode\<close>) as a
  recursive-descent scanner over the remaining input with a fuel argument.
  \<open>model_dump_json(indent=2)\<close> (line 122) prints a value in serde_json's pretty
  format. The theory proves that the scanner always terminates within the fuel
  \<open>json_loads\<close> gives it, that the objects it builds are Python dicts (distinct
  keys), and that scanning what the printer printed gives the value back.
\<close>

subsection \<open>Python objects built by the decoder\<close>

text \<open>
  Floats are kept as exact decimals \<open>m * 10 ^ e\<close>, plus the three non-finite constants
  that \<open>json.loads\<close> accepts (\<open>NaN\<close>, \<open>Infinity\<close>, \<open>-Infinity\<close>); IEEE rounding is
  not modelled. A dict is an association list in insertion order.
\<close>

datatype pyfloat = FDec int int | FInf bool | FNaN

datatype pyval =
    PNone
  | PBool bool
  | PInt int
  | PFloat pyfloat
  | PStr ustr
  | PList "pyval list"
  | PDict "(ustr \<times> pyval) list"

text \<open>\<open>d[k] = v\<close> on a Python dict: an existing key keeps its position.\<close>

fun dict_set :: "(ustr \<times> pyval) list \<Rightarrow> ustr \<Rightarrow> pyval \<Rightarrow> (ustr \<times> pyval) list" where
  "dict_set [] k v = [(k, v)]"
| "dict_set ((k', v') # kvs) k v =
     (if k' = k then (k, v) # kvs else (k', v') # dict_set kvs k v)"

text \<open>\<open>d.get(k)\<close>.\<close>

fun dict_get :: "(ustr \<times> pyval) list \<Rightarrow> ustr \<Rightarrow> pyval option" where
  "dict_get [] k = None"
| "dict_get ((k', v') # kvs) k = (if k' = k then Some v' else dict_get kvs k)"

subsection \<open>Scanner results\<close>

text \<open>
  A scan either succeeds with a value and the remaining input, fails with a
  \<open>JSONDecodeError\<close> (\<open>Malformed\<close>), or runs out of fuel (\<open>NoFuel\<close>); the last one
  is shown never to happen with the fuel \<open>json_loads\<close> supplies.
\<close>

datatype 'a scan = Scanned 'a ustr | Malformed | NoFuel

subsection \<open>Strings: \<open>scanstring_unicode\<close> with \<open>strict=True\<close>\<close>

definition hex_val :: "nat \<Rightarrow> nat option" where
  "hex_val c =
     (if 48 \<le> c \<and> c \<le> 57 then Some (c - 48)
      else if 97 \<le> c \<and> c \<le> 102 then Some (c - 87)
      else if 65 \<le> c \<and> c \<le> 70 then Some (c - 55)
      else None)"

fun hex4 :: "ustr \<Rightarrow> nat option" where
  "hex4 [a, b, c, d] =
     (case (hex_val a, hex_val b, hex_val c, hex_val d) of
        (Some w, Some x, Some y, Some z) \<Rightarrow> Some (((w * 16 + x) * 16 + y) * 16 + z)
      | _ \<Rightarrow> None)"
| "hex4 _ = None"

definition simple_escape :: "nat \<Rightarrow> nat option" where
  "simple_escape e =
     (if e = 34 then Some 34 else if e = 92 then Some 92 else if e = 47 then Some 47
      else if e = 98 then Some 8 else if e = 102 then Some 12 else if e = 110 then Some 10
      else if e = 114 then Some 13 else if e = 116 then Some 9 else None)"

definition is_high_surrogate :: "nat \<Rightarrow> bool" where
  "is_high_surrogate c \<longleftrightarrow> 55296 \<le> c \<and> c \<le> 56319"

definition is_low_surrogate :: "nat \<Rightarrow> bool" where
  "is_low_surrogate c \<longleftrightarrow> 56320 \<le> c \<and> c \<le> 57343"

text \<open>
  A high surrogate written as \<open>\uXXXX\<close> and directly followed by an escaped low
  surrogate is joined into one code point; any other \<open>\uXXXX\<close> is kept as it is.
\<close>

definition low_escape :: "ustr \<Rightarrow> nat option" where
  "low_escape s =
     (if take 2 s = [92, 117] then
        (case hex4 (take 4 (drop 2 s)) of
           Some u \<Rightarrow> if is_low_surrogate u then Some u else None
         | None \<Rightarrow> None)
      else None)"

definition join_surrogates :: "nat \<Rightarrow> nat \<Rightarrow> nat" where
  "join_surrogates hi lo = 65536 + (hi - 55296) * 1024 + (lo - 56320)"

definition prepend_char :: "nat \<Rightarrow> (ustr \<times> ustr) option \<Rightarrow> (ustr \<times> ustr) option" where
  "prepend_char c r = map_option (\<lambda>(x, rest). (c # x, rest)) r"

text \<open>
  \<open>scan_str s\<close> reads the body of a string literal whose opening quote is already
  consumed; it returns the decoded string and the input after the closing quote.
  \<open>None\<close> is \<open>Unterminated string\<close>, \<open>Invalid control character\<close> or
  \<open>Invalid \escape\<close>.
\<close>

function scan_str :: "ustr \<Rightarrow> (ustr \<times> ustr) option" where
  "scan_str [] = None"
| "scan_str (c # s) =
     (if c = 34 then Some ([], s)
      else if c = 92 then
        (case s of
           [] \<Rightarrow> None
         | e # s' \<Rightarrow>
             if e = 117 then
               (case hex4 (take 4 s') of
                  None \<Rightarrow> None
                | Some u \<Rightarrow>
                    (if is_high_surrogate u \<and> low_escape (drop 4 s') \<noteq> None
                     then prepend_char (join_surrogates u (the (low_escape (drop 4 s'))))
                            (scan_str (drop 10 s'))
                     else prepend_char u (scan_str (drop 4 s'))))
             else
               (case simple_escape e of
                  None \<Rightarrow> None
                | Some d \<Rightarrow> prepend_char d (scan_str s')))
      else if c < 32 then None
      else prepend_char c (scan_str s))"
  by pat_completeness auto
termination
  by (relation "measure length") auto

subsection \<open>Numbers: \<open>_match_number_unicode\<close>\<close>

text \<open>
  The grammar is \<open>-?(0|[1-9][0-9]*)(\.[0-9]+)?([eE][-+]?[0-9]+)?\<close>; a fraction or
  an exponent that is not followed by a digit is not consumed. Without fraction and
  exponent the number is an \<open>int\<close>, otherwise a \<open>float\<close>.
\<close>

definition scan_int_part :: "ustr \<Rightarrow> (ustr \<times> ustr) option" where
  "scan_int_part s =
     (case s of
        [] \<Rightarrow> None
      | d # r \<Rightarrow>
          if d = 48 then Some ([d], r)
          else if is_digit d then Some (d # takeWhile is_digit r, dropWhile is_digit r)
          else None)"

definition scan_frac :: "ustr \<Rightarrow> ustr \<times> ustr" where
  "scan_frac s =
     (case s of
        c # d # r \<Rightarrow>
          if c = 46 \<and> is_digit d then (d # takeWhile is_digit r, dropWhile is_digit r)
          else ([], s)
      | _ \<Rightarrow> ([], s))"

definition exp_sign :: "ustr \<Rightarrow> int \<times> ustr" where
  "exp_sign s =
     (case s of
        d # r \<Rightarrow> if d = 43 then (1, r) else if d = 45 then (-1, r) else (1, s)
      | [] \<Rightarrow> (1, s))"

definition scan_exp :: "ustr \<Rightarrow> (int \<times> ustr) option" where
  "scan_exp s =
     (case s of
        c # r \<Rightarrow>
          if c = 101 \<or> c = 69 then
            (let (sg, r') = exp_sign r; ds = takeWhile is_digit r' in
             if ds = [] then None else Some (sg * int (digits_val ds), dropWhile is_digit r'))
          else None
      | [] \<Rightarrow> None)"

definition scan_number :: "ustr \<Rightarrow> (pyval \<times> ustr) option" where
  "scan_number s =
     (let (neg, s1) = (case s of c # r \<Rightarrow> if c = 45 then (True, r) else (False, s)
                                | [] \<Rightarrow> (False, s));
          sg = (if neg then -1 else 1) :: int
      in case scan_int_part s1 of
           None \<Rightarrow> None
         | Some (ip, s2) \<Rightarrow>
             (let (fp, s3) = scan_frac s2 in
              case scan_exp s3 of
                None \<Rightarrow>
                  if fp = [] then Some (PInt (sg * int (digits_val ip)), s3)
                  else Some (PFloat (FDec (sg * int (digits_val (ip @ fp))) (- int (length fp))), s3)
              | Some (e, s4) \<Rightarrow>
                  Some (PFloat (FDec (sg * int (digits_val (ip @ fp))) (e - int (length fp))), s4)))"

subsection \<open>Values, arrays and objects: \<open>scan_once_unicode\<close>\<close>

definition skip_ws :: "ustr \<Rightarrow> ustr" where
  "skip_ws s = dropWhile is_ws s"

definition scan_bind :: "'a scan \<Rightarrow> ('a \<Rightarrow> ustr \<Rightarrow> 'b scan) \<Rightarrow> 'b scan" where
  "scan_bind m g = (case m of Scanned x r \<Rightarrow> g x r | Malformed \<Rightarrow> Malformed | NoFuel \<Rightarrow> NoFuel)"

text \<open>Skip whitespace, then branch on the next character; none left is malformed.\<close>

definition next_tok :: "ustr \<Rightarrow> (nat \<Rightarrow> ustr \<Rightarrow> 'a scan) \<Rightarrow> 'a scan" where
  "next_tok s k = (case skip_ws s of [] \<Rightarrow> Malformed | c # r \<Rightarrow> k c r)"

text \<open>
  The values that contain no other value: a string, the constants \<open>null\<close>,
  \<open>true\<close>, \<open>false\<close>, \<open>NaN\<close>, \<open>Infinity\<close>, \<open>-Infinity\<close>, and a
  number. A prefix of a constant that does not spell it out falls through to the
  number scanner, which then fails, as in \<open>scan_once_unicode\<close>.
\<close>

definition scan_atom :: "ustr \<Rightarrow> pyval scan" where
  "scan_atom s =
     (case s of
        [] \<Rightarrow> Malformed
      | c # r \<Rightarrow>
          if c = 34 then
            (case scan_str r of None \<Rightarrow> Malformed | Some (x, r') \<Rightarrow> Scanned (PStr x) r')
          else if c = 110 \<and> take 3 r = U ''ull'' then Scanned PNone (drop 3 r)
          else if c = 116 \<and> take 3 r = U ''rue'' then Scanned (PBool True) (drop 3 r)
          else if c = 102 \<and> take 4 r = U ''alse'' then Scanned (PBool False) (drop 4 r)
          else if c = 78 \<and> take 2 r = U ''aN'' then Scanned (PFloat FNaN) (drop 2 r)
          else if c = 73 \<and> take 7 r = U ''nfinity'' then Scanned (PFloat (FInf True)) (drop 7 r)
          else if c = 45 \<and> take 8 r = U ''Infinity'' then Scanned (PFloat (FInf False)) (drop 8 r)
          else (case scan_number s of None \<Rightarrow> Malformed | Some (v, r') \<Rightarrow> Scanned v r'))"

text \<open>
  A key of an object and its delimiter: the quoted key, whitespace, the colon,
  whitespace. \<open>None\<close> is \<open>Expecting property name enclosed in double quotes\<close>,
  a bad string, or \<open>Expecting ':' delimiter\<close>.
\<close>

definition scan_key :: "ustr \<Rightarrow> (ustr \<times> ustr) option" where
  "scan_key s =
     (case s of
        [] \<Rightarrow> None
      | q # r \<Rightarrow>
          if q \<noteq> 34 then None
          else
            (case scan_str r of
               None \<Rightarrow> None
             | Some (k, r1) \<Rightarrow>
                 (case skip_ws r1 of
                    [] \<Rightarrow> None
                  | c # r2 \<Rightarrow> if c = 58 then Some (k, skip_ws r2) else None)))"

text \<open>
  \<open>scan_value\<close> dispatches on the first character as \<open>scan_once_unicode\<close> does;
  \<open>scan_elems\<close> is the loop of \<open>_parse_array_unicode\<close> once the first element
  starts, \<open>scan_members\<close> the loop of \<open>_parse_object_unicode\<close> positioned at a
  key's opening quote, with the dict built so far. Every call spends one unit of fuel.
\<close>

fun scan_value :: "nat \<Rightarrow> ustr \<Rightarrow> pyval scan"
and scan_elems :: "nat \<Rightarrow> ustr \<Rightarrow> pyval list scan"
and scan_members :: "nat \<Rightarrow> (ustr \<times> pyval) list \<Rightarrow> ustr \<Rightarrow> (ustr \<times> pyval) list scan" where
  "scan_value 0 s = NoFuel"
| "scan_value (Suc f) s =
     (case s of
        [] \<Rightarrow> Malformed
      | c # r \<Rightarrow>
          if c = 123 then
            next_tok r (\<lambda>d r'.
              if d = 125 then Scanned (PDict []) r'
              else if d = 34 then scan_bind (scan_members f [] (d # r')) (\<lambda>kvs. Scanned (PDict kvs))
              else Malformed)
          else if c = 91 then
            next_tok r (\<lambda>d r'.
              if d = 93 then Scanned (PList []) r'
              else scan_bind (scan_elems f (d # r')) (\<lambda>vs. Scanned (PList vs)))
          else scan_atom s)"
| "scan_elems 0 s = NoFuel"
| "scan_elems (Suc f) s =
     scan_bind (scan_value f s) (\<lambda>v r.
       next_tok r (\<lambda>c r'.
         if c = 93 then Scanned [v] r'
         else if c = 44 then scan_bind (scan_elems f (skip_ws r')) (\<lambda>vs. Scanned (v # vs))
         else Malformed))"
| "scan_members 0 acc s = NoFuel"
| "scan_members (Suc f) acc s =
     (case scan_key s of
        None \<Rightarrow> Malformed
      | Some (k, r) \<Rightarrow>
          scan_bind (scan_value f r) (\<lambda>v r'.
            next_tok r' (\<lambda>d r''.
              if d = 125 then Scanned (dict_set acc k v) r''
              else if d = 44 then scan_members f (dict_set acc k v) (skip_ws r'')
              else Malformed)))"

text \<open>
  \<open>json.loads(s)\<close>: a leading byte-order mark is refused, whitespace around the
  value is skipped, and anything after it is \<open>Extra data\<close>. \<open>None\<close> is a
  \<open>JSONDecodeError\<close>. Fuel \<open>2 * length s + 1\<close> is always enough
  (\<open>scan_value_fuel_enough\<close> below).
\<close>

definition json_loads :: "ustr \<Rightarrow> pyval option" where
  "json_loads s =
     (if take 1 s = [65279] then None
      else (case scan_value (Suc (2 * length s)) (skip_ws s) of
              Scanned v r \<Rightarrow> if skip_ws r = [] then Some v else None
            | _ \<Rightarrow> None))"

subsection \<open>Printing: serde_json's pretty formatter\<close>

definition hexdig :: "nat \<Rightarrow> nat" where
  "hexdig d = (if d < 10 then 48 + d else 87 + d)"

definition escape_char :: "nat \<Rightarrow> ustr" where
  "escape_char c =
     (if c = 34 then [92, 34] else if c = 92 then [92, 92]
      else if c = 8 then [92, 98] else if c = 12 then [92, 102]
      else if c = 10 then [92, 110] else if c = 13 then [92, 114]
      else if c = 9 then [92, 116]
      else if c < 32 then [92, 117, 48, 48, hexdig (c div 16), hexdig (c mod 16)]
      else [c])"

definition quote :: "ustr \<Rightarrow> ustr" where
  "quote s = 34 # concat (map escape_char s) @ [34]"

definition indent :: "nat \<Rightarrow> ustr" where
  "indent n = replicate (2 * n) 32"

text \<open>
  Non-finite floats are printed as \<open>null\<close>, pydantic's default
  (\<open>ser_json_inf_nan='null'\<close>); a finite float is printed as mantissa and exponent.
  The program never prints a float: the exam records hold none.
\<close>

fun dump_float :: "pyfloat \<Rightarrow> ustr" where
  "dump_float (FDec m e) = show_int m @ [101] @ show_int e"
| "dump_float (FInf b) = U ''null''"
| "dump_float FNaN = U ''null''"

fun dump :: "nat \<Rightarrow> pyval \<Rightarrow> ustr"
and dump_elems :: "nat \<Rightarrow> pyval list \<Rightarrow> ustr"
and dump_members :: "nat \<Rightarrow> (ustr \<times> pyval) list \<Rightarrow> ustr" where
  "dump n PNone = U ''null''"
| "dump n (PBool b) = (if b then U ''true'' else U ''false'')"
| "dump n (PInt i) = show_int i"
| "dump n (PFloat x) = dump_float x"
| "dump n (PStr s) = quote s"
| "dump n (PList xs) =
     (if xs = [] then U ''[]''
      else [91, 10] @ indent (Suc n) @ dump_elems (Suc n) xs @ [10] @ indent n @ [93])"
| "dump n (PDict kvs) =
     (if kvs = [] then U ''{}''
      else [123, 10] @ indent (Suc n) @ dump_members (Suc n) kvs @ [10] @ indent n @ [125])"
| "dump_elems n [] = []"
| "dump_elems n [x] = dump n x"
| "dump_elems n (x # y # xs) = dump n x @ [44, 10] @ indent n @ dump_elems n (y # xs)"
| "dump_members n [] = []"
| "dump_members n [(k, v)] = quote k @ [58, 32] @ dump n v"
| "dump_members n ((k, v) # kv # kvs) =
     quote k @ [58, 32] @ dump n v @ [44, 10] @ indent n @ dump_members n (kv # kvs)"

definition model_dump_json :: "pyval \<Rightarrow> ustr" where
  "model_dump_json v = dump 0 v"

subsection \<open>Auxiliary notions for the proofs\<close>

text \<open>The characters of the strings and keys of a value, in printing order.\<close>

fun str_chars :: "pyval \<Rightarrow> ustr"
and str_chars_elems :: "pyval list \<Rightarrow> ustr"
and str_chars_members :: "(ustr \<times> pyval) list \<Rightarrow> ustr" where
  "str_chars (PStr s) = s"
| "str_chars (PList xs) = str_chars_elems xs"
| "str_chars (PDict kvs) = str_chars_members kvs"
| "str_chars _ = []"
| "str_chars_elems [] = []"
| "str_chars_elems (x # xs) = str_chars x @ str_chars_elems xs"
| "str_chars_members [] = []"
| "str_chars_members ((k, v) # kvs) = k @ str_chars v @ str_chars_members kvs"


text \<open>
  A number written before \<open>rest\<close> ends there: \<open>rest\<close> does not continue it with
  a digit, a fraction or an exponent.
\<close>

definition num_end :: "ustr \<Rightarrow> bool" where
  "num_end rest \<longleftrightarrow> (case rest of [] \<Rightarrow> True | c # _ \<Rightarrow> \<not> is_digit c \<and> c \<noteq> 46 \<and> c \<noteq> 101 \<and> c \<noteq> 69)"

text \<open>
  Values the printer writes faithfully: dict keys are distinct (as in any Python
  dict) and there is no non-finite float, which pydantic prints as \<open>null\<close>.
\<close>

fun dump_ok :: "pyval \<Rightarrow> bool" where
  "dump_ok (PFloat (FInf b)) = False"
| "dump_ok (PFloat FNaN) = False"
| "dump_ok (PList xs) = list_all dump_ok xs"
| "dump_ok (PDict kvs) = (distinct (map fst kvs) \<and> list_all (\<lambda>kv. dump_ok (snd kv)) kvs)"
| "dump_ok _ = True"

text \<open>Python's dict invariant, everywhere inside a value: no key occurs twice.\<close>

fun py_ok :: "pyval \<Rightarrow> bool" where
  "py_ok (PList xs) = list_all py_ok xs"
| "py_ok (PDict kvs) = (distinct (map fst kvs) \<and> list_all (\<lambda>kv. py_ok (snd kv)) kvs)"
| "py_ok _ = True"

text \<open>\<open>fuel_le a b\<close>: \<open>a\<close> ran out of fuel or is \<open>b\<close>; more fuel only refines.\<close>

definition fuel_le :: "'a scan \<Rightarrow> 'a scan \<Rightarrow> bool" where
  "fuel_le a b \<longleftrightarrow> a = NoFuel \<or> a = b"


section \<open>Lemmas\<close>

subsection \<open>Combinators\<close>

lemma scan_bind_Scanned [simp]:
  "scan_bind m g = Scanned v r \<longleftrightarrow> (\<exists>x r0. m = Scanned x r0 \<and> g x r0 = Scanned v r)"
  by (cases m) (auto simp: scan_bind_def)

lemma scan_bind_NoFuel [simp]:
  "scan_bind m g = NoFuel \<longleftrightarrow> m = NoFuel \<or> (\<exists>x r0. m = Scanned x r0 \<and> g x r0 = NoFuel)"
  by (cases m) (auto simp: scan_bind_def)

lemma scan_bind_simps [simp]:
  "scan_bind (Scanned x r) g = g x r" "scan_bind Malformed g = Malformed" "scan_bind NoFuel g = NoFuel"
  by (simp_all add: scan_bind_def)

lemma next_tok_Scanned [simp]:
  "next_tok s k = Scanned v r \<longleftrightarrow> (\<exists>c r0. skip_ws s = c # r0 \<and> k c r0 = Scanned v r)"
  by (auto simp: next_tok_def split: list.splits)

lemma next_tok_NoFuel [simp]:
  "next_tok s k = NoFuel \<longleftrightarrow> (\<exists>c r0. skip_ws s = c # r0 \<and> k c r0 = NoFuel)"
  by (auto simp: next_tok_def split: list.splits)

lemma prepend_char_Some [simp]:
  "prepend_char c r = Some (x, rest) \<longleftrightarrow> (\<exists>x'. r = Some (x', rest) \<and> x = c # x')"
  by (cases r) (auto simp: prepend_char_def)

lemma length_skip_ws: "length (skip_ws s) \<le> length s"
  by (simp add: skip_ws_def length_dropWhile_le)

lemma shorter_skip_ws: "length r < length (skip_ws s) \<Longrightarrow> length r < length s"
  using length_skip_ws [of s] by simp

lemma skip_ws_Cons_shorter: "skip_ws s = c # r \<Longrightarrow> length r < length s"
  using length_skip_ws [of s] by simp

lemma scan_str_shorter: "scan_str s = Some (x, r) \<Longrightarrow> length r < length s"
proof (induction s arbitrary: x rule: scan_str.induct)
  case 1
  then show ?case by simp
next
  case (2 c s)
  then show ?case
    by (fastforce split: if_splits list.splits option.splits)
qed

lemma scan_int_part_shorter: "scan_int_part s = Some (ip, r) \<Longrightarrow> length r < length s"
  by (auto simp: scan_int_part_def length_dropWhile_le less_Suc_eq_le split: list.splits if_splits)

lemma scan_frac_shorter: "scan_frac s = (fp, r) \<Longrightarrow> length r \<le> length s"
  by (auto simp: scan_frac_def length_dropWhile_le le_Suc_eq split: list.splits if_splits)

lemma exp_sign_shorter: "exp_sign s = (sg, r) \<Longrightarrow> length r \<le> length s"
  by (auto simp: exp_sign_def split: list.splits if_splits)

lemma scan_exp_shorter: "scan_exp s = Some (e, r) \<Longrightarrow> length r < length s"
  by (auto simp: scan_exp_def Let_def length_dropWhile_le less_Suc_eq_le
      dest!: exp_sign_shorter intro: le_trans [OF length_dropWhile_le]
      split: list.splits if_splits prod.splits)

lemma scan_number_shorter: "scan_number s = Some (v, r) \<Longrightarrow> length r < length s"
  by (auto simp: scan_number_def Let_def split: list.splits if_splits prod.splits option.splits
      dest!: scan_int_part_shorter scan_frac_shorter scan_exp_shorter)

lemma scan_atom_shorter: "scan_atom s = Scanned v r \<Longrightarrow> length r < length s"
  by (auto simp: scan_atom_def split: list.splits if_splits option.splits
      dest!: scan_str_shorter scan_number_shorter)

lemma scan_key_shorter: "scan_key s = Some (k, r) \<Longrightarrow> length r < length s"
  by (auto simp: scan_key_def split: list.splits if_splits option.splits
      dest!: scan_str_shorter skip_ws_Cons_shorter intro!: le_less_trans [OF length_skip_ws])

lemma scan_atom_not_NoFuel [simp]: "scan_atom s \<noteq> NoFuel"
  by (auto simp: scan_atom_def split: list.splits if_splits option.splits)

lemma scan_shorter_all:
  "(\<forall>s v r. scan_value f s = Scanned v r \<longrightarrow> length r < length s) \<and>
   (\<forall>s vs r. scan_elems f s = Scanned vs r \<longrightarrow> length r < length s) \<and>
   (\<forall>acc s kvs r. scan_members f acc s = Scanned kvs r \<longrightarrow> length r < length s)"
proof (induction f)
  case 0
  then show ?case by simp
next
  case (Suc f)
  then have V: "\<And>s v r. scan_value f s = Scanned v r \<Longrightarrow> length r < length s"
    and E: "\<And>s vs r. scan_elems f s = Scanned vs r \<Longrightarrow> length r < length s"
    and M: "\<And>acc s kvs r. scan_members f acc s = Scanned kvs r \<Longrightarrow> length r < length s"
    by blast+
  show ?case
  proof (intro conjI allI impI)
    fix s v r assume "scan_value (Suc f) s = Scanned v r"
    then show "length r < length s"
      by (auto split: list.splits if_splits dest!: skip_ws_Cons_shorter scan_atom_shorter E M)
  next
    fix s vs r assume "scan_elems (Suc f) s = Scanned vs r"
    then show "length r < length s"
      by (auto split: if_splits dest!: skip_ws_Cons_shorter V E shorter_skip_ws)
  next
    fix acc s kvs r assume "scan_members (Suc f) acc s = Scanned kvs r"
    then show "length r < length s"
      by (auto split: if_splits option.splits dest!: skip_ws_Cons_shorter scan_key_shorter V M shorter_skip_ws)
  qed
qed

lemma scan_value_shorter: "scan_value f s = Scanned v r \<Longrightarrow> length r < length s"
  using scan_shorter_all by blast

lemma scan_nofuel_all:
  "(\<forall>s. scan_value f s = NoFuel \<longrightarrow> f \<le> 2 * length s) \<and>
   (\<forall>s. scan_elems f s = NoFuel \<longrightarrow> f \<le> 2 * length s + 1) \<and>
   (\<forall>acc s. scan_members f acc s = NoFuel \<longrightarrow> f \<le> 2 * length s + 1)"
proof (induction f)
  case 0
  then show ?case by simp
next
  case (Suc f)
  then have V: "\<And>s. scan_value f s = NoFuel \<Longrightarrow> f \<le> 2 * length s"
    and E: "\<And>s. scan_elems f s = NoFuel \<Longrightarrow> f \<le> 2 * length s + 1"
    and M: "\<And>acc s. scan_members f acc s = NoFuel \<Longrightarrow> f \<le> 2 * length s + 1"
    by blast+
  have E': "\<And>s. scan_elems f (skip_ws s) = NoFuel \<Longrightarrow> f \<le> 2 * length s + 1"
    using E length_skip_ws by (meson add_le_mono1 le_trans mult_le_mono2)
  have M': "\<And>acc s. scan_members f acc (skip_ws s) = NoFuel \<Longrightarrow> f \<le> 2 * length s + 1"
    using M length_skip_ws by (meson add_le_mono1 le_trans mult_le_mono2)
  show ?case
  proof (intro conjI allI impI)
    fix s assume "scan_value (Suc f) s = NoFuel"
    then show "Suc f \<le> 2 * length s"
      by (auto split: list.splits if_splits dest!: skip_ws_Cons_shorter E M)
  next
    fix s assume "scan_elems (Suc f) s = NoFuel"
    then show "Suc f \<le> 2 * length s + 1"
      by (auto split: if_splits dest!: skip_ws_Cons_shorter scan_value_shorter V E')
  next
    fix acc s assume "scan_members (Suc f) acc s = NoFuel"
    then show "Suc f \<le> 2 * length s + 1"
      by (auto split: if_splits option.splits
          dest!: skip_ws_Cons_shorter scan_key_shorter scan_value_shorter V M')
  qed
qed

lemma scan_value_fuel_enough: "2 * length s < f \<Longrightarrow> scan_value f s \<noteq> NoFuel"
  using scan_nofuel_all by fastforce

lemma fuel_le_refl [simp]: "fuel_le a a"
  by (simp add: fuel_le_def)

lemma fuel_le_bind:
  assumes "fuel_le m m'" and "\<And>x r. fuel_le (g x r) (g' x r)"
  shows "fuel_le (scan_bind m g) (scan_bind m' g')"
proof (cases m)
  case (Scanned x r)
  with assms(1) have "m' = m" by (simp add: fuel_le_def)
  with Scanned assms(2) [of x r] show ?thesis by (simp add: scan_bind_def)
next
  case Malformed
  with assms(1) have "m' = m" by (simp add: fuel_le_def)
  with Malformed show ?thesis by simp
qed (simp add: fuel_le_def scan_bind_def)

lemma fuel_le_next_tok:
  "(\<And>c r. fuel_le (k c r) (k' c r)) \<Longrightarrow> fuel_le (next_tok s k) (next_tok s k')"
  by (simp add: next_tok_def split: list.split)

lemma fuel_le_case_list:
  "fuel_le a a' \<Longrightarrow> (\<And>c r. fuel_le (b c r) (b' c r)) \<Longrightarrow>
   fuel_le (case s of [] \<Rightarrow> a | c # r \<Rightarrow> b c r) (case s of [] \<Rightarrow> a' | c # r \<Rightarrow> b' c r)"
  by (cases s) simp_all

lemma fuel_le_case_option:
  "fuel_le a a' \<Longrightarrow> (\<And>k r. fuel_le (b k r) (b' k r)) \<Longrightarrow>
   fuel_le (case x of None \<Rightarrow> a | Some (k, r) \<Rightarrow> b k r) (case x of None \<Rightarrow> a' | Some (k, r) \<Rightarrow> b' k r)"
  by (cases x) auto

lemma fuel_le_if:
  "fuel_le a a' \<Longrightarrow> fuel_le b b' \<Longrightarrow> fuel_le (if c then a else b) (if c then a' else b')"
  by simp

lemma scan_mono_all:
  "(\<forall>s. fuel_le (scan_value f s) (scan_value (Suc f) s)) \<and>
   (\<forall>s. fuel_le (scan_elems f s) (scan_elems (Suc f) s)) \<and>
   (\<forall>acc s. fuel_le (scan_members f acc s) (scan_members (Suc f) acc s))"
proof (induction f)
  case 0
  then show ?case by (simp add: fuel_le_def)
next
  case (Suc f)
  then have V: "\<And>s. fuel_le (scan_value f s) (scan_value (Suc f) s)"
    and E: "\<And>s. fuel_le (scan_elems f s) (scan_elems (Suc f) s)"
    and M: "\<And>acc s. fuel_le (scan_members f acc s) (scan_members (Suc f) acc s)"
    by blast+
  show ?case
  proof (intro conjI allI)
    fix s
    show "fuel_le (scan_value (Suc f) s) (scan_value (Suc (Suc f)) s)"
      unfolding scan_value.simps(2) [of f s] scan_value.simps(2) [of "Suc f" s]
      by (intro fuel_le_case_list fuel_le_if fuel_le_next_tok fuel_le_bind fuel_le_refl E M)
  next
    fix s
    show "fuel_le (scan_elems (Suc f) s) (scan_elems (Suc (Suc f)) s)"
      unfolding scan_elems.simps(2) [of f s] scan_elems.simps(2) [of "Suc f" s]
      by (intro fuel_le_if fuel_le_next_tok fuel_le_bind fuel_le_refl V E)
  next
    fix acc s
    show "fuel_le (scan_members (Suc f) acc s) (scan_members (Suc (Suc f)) acc s)"
      unfolding scan_members.simps(2) [of f acc s] scan_members.simps(2) [of "Suc f" acc s]
      by (intro fuel_le_case_option fuel_le_if fuel_le_next_tok fuel_le_bind fuel_le_refl V M)
  qed
qed

lemma scan_value_mono: "scan_value f s \<noteq> NoFuel \<Longrightarrow> f \<le> g \<Longrightarrow> scan_value g s = scan_value f s"
proof (induction g)
  case 0
  then show ?case by simp
next
  case (Suc g)
  show ?case
  proof (cases "f = Suc g")
    case False
    with Suc have "scan_value g s = scan_value f s" by simp
    with Suc.prems(1) scan_mono_all show ?thesis
      unfolding fuel_le_def by metis
  qed simp
qed

lemma hex_val_hexdig [simp]: "d < 16 \<Longrightarrow> hex_val (hexdig d) = Some d"
  by (auto simp: hex_val_def hexdig_def)

lemma scan_str_escape:
  "scan_str (concat (map escape_char s) @ 34 # rest) = Some (s, rest)"
proof (induction s)
  case Nil
  then show ?case by simp
next
  case (Cons c s)
  let ?t = "concat (map escape_char s) @ 34 # rest"
  have h0: "hex_val 48 = Some 0" by (simp add: hex_val_def)
  have ctrl: "c < 32 \<Longrightarrow> hex4 [48, 48, hexdig (c div 16), hexdig (c mod 16)] = Some c"
    by (simp add: h0)
  have nohigh: "c < 32 \<Longrightarrow> \<not> is_high_surrogate c"
    by (simp add: is_high_surrogate_def)
  show ?case
    using Cons.IH ctrl nohigh
    by (auto simp: escape_char_def simple_escape_def prepend_char_def)
qed

lemma num_end_digits:
  "num_end rest \<Longrightarrow> takeWhile is_digit rest = [] \<and> dropWhile is_digit rest = rest"
  by (cases rest) (auto simp: num_end_def)

lemma scan_int_part_show_nat:
  assumes "num_end rest \<or> (\<exists>t. rest = 101 # t)"
  shows "scan_int_part (show_nat n @ rest) = Some (show_nat n, rest)"
proof -
  obtain c r where sn: "show_nat n = c # r" using show_nat_Cons by blast
  have dig: "is_digit c" "\<And>x. x \<in> set r \<Longrightarrow> is_digit x"
    using show_nat_digits [of _ n] sn by auto
  have rest_nd: "takeWhile is_digit rest = [] \<and> dropWhile is_digit rest = rest"
    using assms num_end_digits by (auto simp: is_digit_def)
  show ?thesis
  proof (cases "c = 48")
    case True
    with sn show ?thesis using show_nat_leading_zero [OF sn] by (simp add: scan_int_part_def)
  next
    case False
    with sn dig rest_nd show ?thesis by (simp add: scan_int_part_def)
  qed
qed

lemma scan_frac_none: "num_end rest \<or> (\<exists>t. rest = 101 # t) \<Longrightarrow> scan_frac rest = ([], rest)"
  by (auto simp: scan_frac_def num_end_def split: list.splits)

lemma scan_exp_none: "num_end rest \<Longrightarrow> scan_exp rest = None"
  by (auto simp: scan_exp_def num_end_def split: list.splits)

lemma show_nat_hd_not_sign: "show_nat n = c # r \<Longrightarrow> c \<noteq> 43 \<and> c \<noteq> 45"
  using show_nat_digits [of c n] by (auto simp: is_digit_def)

lemma scan_exp_show_int:
  assumes "num_end rest"
  shows "scan_exp (101 # show_int e @ rest) = Some (e, rest)"
proof -
  obtain c r where sn: "show_nat (nat \<bar>e\<bar>) = c # r" using show_nat_Cons by blast
  have dig: "\<And>x. x \<in> set (show_nat (nat \<bar>e\<bar>)) \<Longrightarrow> is_digit x" by simp
  have rest_nd: "takeWhile is_digit rest = [] \<and> dropWhile is_digit rest = rest"
    using assms num_end_digits by blast
  have sign: "exp_sign (show_int e @ rest) = (if e < 0 then -1 else 1, show_nat (nat \<bar>e\<bar>) @ rest)"
    using show_nat_hd_not_sign [OF sn] sn by (auto simp: exp_sign_def show_int_def)
  show ?thesis
    using sign dig rest_nd by (auto simp: scan_exp_def)
qed

lemma scan_number_show_int:
  assumes "num_end rest"
  shows "scan_number (show_int i @ rest) = Some (PInt i, rest)"
proof -
  have ip: "scan_int_part (show_nat (nat \<bar>i\<bar>) @ rest) = Some (show_nat (nat \<bar>i\<bar>), rest)"
    using assms by (rule scan_int_part_show_nat [OF disjI1])
  have pos: "\<not> i < 0 \<Longrightarrow> show_int i = show_nat (nat \<bar>i\<bar>)" by simp
  obtain c r where sn: "show_nat (nat \<bar>i\<bar>) = c # r" using show_nat_Cons by blast
  have dv: "digits_val (c # r) = nat \<bar>i\<bar>" using sn digits_val_show_nat by metis
  show ?thesis
    using ip assms dv scan_frac_none [OF disjI1, OF assms] scan_exp_none [OF assms]
      show_nat_hd_not_sign [OF sn] sn pos
    by (cases "i < 0") (auto simp: scan_number_def)
qed

lemma scan_number_dump_float:
  assumes "num_end rest"
  shows "scan_number (show_int m @ 101 # show_int e @ rest) = Some (PFloat (FDec m e), rest)"
proof -
  have ip: "scan_int_part (show_nat (nat \<bar>m\<bar>) @ 101 # show_int e @ rest) =
      Some (show_nat (nat \<bar>m\<bar>), 101 # show_int e @ rest)"
    by (rule scan_int_part_show_nat) simp
  have fr: "scan_frac (101 # show_int e @ rest) = ([], 101 # show_int e @ rest)"
    by (rule scan_frac_none) simp
  obtain c r where sn: "show_nat (nat \<bar>m\<bar>) = c # r" using show_nat_Cons by blast
  have dv: "digits_val (c # r) = nat \<bar>m\<bar>" using sn digits_val_show_nat by metis
  have pos: "\<not> m < 0 \<Longrightarrow> show_int m = show_nat (nat \<bar>m\<bar>)" by simp
  show ?thesis
    using ip fr dv sn pos scan_exp_show_int [OF assms] show_nat_hd_not_sign [OF sn]
    by (cases "m < 0") (auto simp: scan_number_def)
qed

lemma skip_ws_ws [simp]: "is_ws c \<Longrightarrow> skip_ws (c # s) = skip_ws s"
  by (simp add: skip_ws_def)

lemma skip_ws_nonws [simp]: "\<not> is_ws c \<Longrightarrow> skip_ws (c # s) = c # s"
  by (simp add: skip_ws_def)

lemma dropWhile_replicate [simp]: "P x \<Longrightarrow> dropWhile P (replicate k x @ s) = dropWhile P s"
  by (induction k) auto

lemma skip_ws_indent [simp]: "skip_ws (indent n @ s) = skip_ws s"
  by (simp add: skip_ws_def indent_def is_ws_def)

lemma skip_ws_Nil [simp]: "skip_ws [] = []"
  by (simp add: skip_ws_def)

lemma show_nat_hd_digit: "show_nat n = d # t \<Longrightarrow> is_digit d"
  by (metis list.set_intros(1) show_nat_digits)

lemma show_int_nonempty: "\<exists>c t. show_int i = c # t"
  by (simp add: show_int_def show_nat_Cons)

lemma show_int_shape:
  assumes "show_int i = c # t"
  shows "is_digit c \<or> (c = 45 \<and> (\<exists>d t'. t = d # t' \<and> is_digit d))"
proof (cases "i < 0")
  case True
  obtain d t' where sn: "show_nat (nat (- i)) = d # t'" using show_nat_Cons by blast
  with True assms have "c = 45" "t = d # t'" by auto
  with show_nat_hd_digit [OF sn] show ?thesis by blast
next
  case False
  with assms have "show_nat (nat i) = c # t" by simp
  then show ?thesis using show_nat_hd_digit by blast
qed

lemma scan_value_num:
  assumes "is_digit c \<or> (c = 45 \<and> (\<exists>d r'. r = d # r' \<and> is_digit d))"
  shows "scan_value (Suc f) (c # r) =
           (case scan_number (c # r) of None \<Rightarrow> Malformed | Some (v, r') \<Rightarrow> Scanned v r')"
  using assms by (auto simp: scan_atom_def is_digit_def)

lemma scan_value_numeral:
  assumes "show_int i = c # t" and "scan_number (show_int i @ r) = Some (v, rest)"
  shows "scan_value (Suc f) (show_int i @ r) = Scanned v rest"
proof -
  have "is_digit c \<or> (c = 45 \<and> (\<exists>d r'. t @ r = d # r' \<and> is_digit d))"
    using show_int_shape [OF assms(1)] by auto
  then have "scan_value (Suc f) (c # t @ r) =
      (case scan_number (c # t @ r) of None \<Rightarrow> Malformed | Some (v, r') \<Rightarrow> Scanned v r')"
    by (rule scan_value_num)
  with assms show ?thesis by simp
qed

lemma scan_value_show_int:
  "num_end rest \<Longrightarrow> scan_value (Suc f) (show_int i @ rest) = Scanned (PInt i) rest"
  using show_int_nonempty [of i] scan_value_numeral scan_number_show_int by metis

lemma scan_value_dump_float:
  assumes "num_end rest"
  shows "scan_value (Suc f) (show_int m @ 101 # show_int e @ rest) = Scanned (PFloat (FDec m e)) rest"
proof -
  obtain c t where "show_int m = c # t" using show_int_nonempty by blast
  then show ?thesis
    by (rule scan_value_numeral [OF _ scan_number_dump_float [OF assms]])
qed

lemma dump_first:
  "\<exists>c t. dump n v = c # t \<and> \<not> is_ws c \<and> c \<noteq> 93 \<and> c \<noteq> 65279"
proof (cases v)
  case (PInt i)
  obtain c t where "show_int i = c # t" using show_int_nonempty by blast
  with PInt show ?thesis using show_int_shape [of i c t] by (auto simp: is_digit_def is_ws_def)
next
  case (PFloat x)
  then show ?thesis
  proof (cases x)
    case (FDec m e)
    obtain c t where "show_int m = c # t" using show_int_nonempty by blast
    with PFloat FDec show ?thesis using show_int_shape [of m c t] by (auto simp: is_digit_def is_ws_def)
  qed (auto simp: is_ws_def)
qed (auto simp: is_ws_def quote_def)

lemma fuel_step:
  "\<forall>f\<ge>f1. P f \<Longrightarrow> (\<And>f. P f \<Longrightarrow> Q (Suc f)) \<Longrightarrow> \<exists>f0. \<forall>f\<ge>f0. Q f"
  by (metis Suc_le_D Suc_le_mono)

lemma fuel_step2:
  "\<forall>f\<ge>f1. P f \<Longrightarrow> \<forall>f\<ge>f2. R f \<Longrightarrow> (\<And>f. P f \<Longrightarrow> R f \<Longrightarrow> Q (Suc f)) \<Longrightarrow>
   \<exists>f0. \<forall>f\<ge>f0. Q f"
  by (rule fuel_step [of "max f1 f2" "\<lambda>f. P f \<and> R f"]) auto

lemma fuel_any: "(\<And>f. Q (Suc f)) \<Longrightarrow> \<exists>f0. \<forall>f\<ge>f0. Q f"
  by (rule fuel_step [of 0 "\<lambda>f. True"]) auto

lemma dict_set_fresh: "k \<notin> set (map fst acc) \<Longrightarrow> dict_set acc k v = acc @ [(k, v)]"
  by (induction acc) auto

lemma scan_key_quote: "scan_key (quote k @ 58 # s) = Some (k, skip_ws s)"
  by (simp add: scan_key_def quote_def scan_str_escape is_ws_def)

lemma dump_elems_first:
  "xs \<noteq> [] \<Longrightarrow> \<exists>c t. dump_elems n xs = c # t \<and> \<not> is_ws c \<and> c \<noteq> 93"
proof (cases xs)
  case (Cons x ys)
  obtain c t where "dump n x = c # t" "\<not> is_ws c" "c \<noteq> 93" using dump_first by blast
  with Cons show ?thesis by (cases ys) auto
qed simp

lemma dump_members_first: "kvs \<noteq> [] \<Longrightarrow> \<exists>t. dump_members n kvs = 34 # t"
proof -
  assume "kvs \<noteq> []"
  then obtain k v kvs' where "kvs = (k, v) # kvs'" by (cases kvs) auto
  then show ?thesis by (cases kvs') (auto simp: quote_def)
qed

lemma num_end_simps [simp]: "num_end []" "num_end (10 # s)" "num_end (44 # s)"
  by (simp_all add: num_end_def is_digit_def)

lemma dump_scan_all:
  "dump_ok v \<Longrightarrow> num_end rest \<Longrightarrow>
     \<exists>f0. \<forall>f\<ge>f0. scan_value f (dump n v @ rest) = Scanned v rest"
  "xs \<noteq> [] \<Longrightarrow> list_all dump_ok xs \<Longrightarrow>
     \<exists>f0. \<forall>f\<ge>f0. scan_elems f (dump_elems n xs @ 10 # indent m @ 93 # rest) = Scanned xs rest"
  "kvs \<noteq> [] \<Longrightarrow> list_all (\<lambda>kv. dump_ok (snd kv)) kvs \<Longrightarrow> distinct (map fst (acc @ kvs)) \<Longrightarrow>
     \<exists>f0. \<forall>f\<ge>f0. scan_members f acc (dump_members n kvs @ 10 # indent m @ 125 # rest) =
                        Scanned (acc @ kvs) rest"
proof (induction n v and n xs and n kvs arbitrary: rest and m rest and acc m rest
    rule: dump_dump_elems_dump_members.induct)
  case (1 n)
  show ?case by (rule fuel_any) (simp add: scan_atom_def)
next
  case (2 n b)
  show ?case by (rule fuel_any) (cases b; simp add: scan_atom_def)
next
  case (3 n i)
  show ?case by (rule fuel_any) (simp only: dump.simps scan_value_show_int [OF "3.prems"(2)])
next
  case (4 n x)
  show ?case
  proof (cases x)
    case (FDec m e)
    have "\<And>f. scan_value (Suc f) (dump n (PFloat x) @ rest) = Scanned (PFloat x) rest"
      using scan_value_dump_float [OF "4.prems"(2)] FDec by simp
    then show ?thesis by (rule fuel_any)
  qed (use "4.prems" in auto)
next
  case (5 n s)
  show ?case by (rule fuel_any) (simp add: scan_atom_def quote_def scan_str_escape)
next
  case (6 n xs)
  show ?case
  proof (cases "xs = []")
    case True
    then show ?thesis by (auto intro!: fuel_any simp: next_tok_def is_ws_def)
  next
    case False
    obtain c t where ct: "dump_elems (Suc n) xs = c # t" "\<not> is_ws c" "c \<noteq> 93"
      using dump_elems_first [OF False] by blast
    from "6.IH" [OF False] "6.prems"(1) obtain f1 where
      IH: "\<forall>f\<ge>f1. scan_elems f (dump_elems (Suc n) xs @ 10 # indent n @ 93 # rest) = Scanned xs rest"
      using False by fastforce
    show ?thesis
      by (rule fuel_step [OF IH]) (use False ct in \<open>simp add: next_tok_def is_ws_def\<close>)
  qed
next
  case (7 n kvs)
  show ?case
  proof (cases "kvs = []")
    case True
    then show ?thesis by (auto intro!: fuel_any simp: next_tok_def is_ws_def)
  next
    case False
    obtain t where t: "dump_members (Suc n) kvs = 34 # t"
      using dump_members_first [OF False] by blast
    from "7.IH" [OF False, of "[]"] "7.prems"(1) obtain f1 where
      IH: "\<forall>f\<ge>f1. scan_members f [] (dump_members (Suc n) kvs @ 10 # indent n @ 125 # rest) =
             Scanned kvs rest"
      using False by fastforce
    show ?thesis
      by (rule fuel_step [OF IH]) (use False t in \<open>simp add: next_tok_def is_ws_def\<close>)
  qed
next
  case (9 n x)
  from "9.IH" [of "10 # indent m @ 93 # rest"] "9.prems" obtain f1 where
    IH: "\<forall>f\<ge>f1. scan_value f (dump n x @ 10 # indent m @ 93 # rest) = Scanned x (10 # indent m @ 93 # rest)"
    by auto
  show ?case
    by (rule fuel_step [OF IH]) (simp add: is_ws_def)
next
  case (10 n x y xs)
  from "10.IH"(1) [of "44 # 10 # indent n @ dump_elems n (y # xs) @ 10 # indent m @ 93 # rest"] "10.prems"
  obtain f1 where
    IH1: "\<forall>f\<ge>f1. scan_value f (dump n x @ 44 # 10 # indent n @ dump_elems n (y # xs) @ 10 # indent m @ 93 # rest)
            = Scanned x (44 # 10 # indent n @ dump_elems n (y # xs) @ 10 # indent m @ 93 # rest)"
    by auto
  from "10.IH"(2) [of m rest] "10.prems" obtain f2 where
    IH2: "\<forall>f\<ge>f2. scan_elems f (dump_elems n (y # xs) @ 10 # indent m @ 93 # rest) = Scanned (y # xs) rest"
    by auto
  obtain c t where ct: "dump_elems n (y # xs) = c # t" "\<not> is_ws c"
    using dump_elems_first [of "y # xs" n] by blast
  show ?case
    by (rule fuel_step2 [OF IH1 IH2]) (use ct in \<open>simp add: is_ws_def\<close>)
next
  case (12 n k v)
  have fresh: "k \<notin> set (map fst acc)" using "12.prems"(3) by simp
  from "12.IH" [of "10 # indent m @ 125 # rest"] "12.prems" obtain f1 where
    IH: "\<forall>f\<ge>f1. scan_value f (dump n v @ 10 # indent m @ 125 # rest) = Scanned v (10 # indent m @ 125 # rest)"
    by auto
  obtain c t where ct: "dump n v = c # t" "\<not> is_ws c" using dump_first by blast
  show ?case
    by (rule fuel_step [OF IH])
      (use ct fresh in \<open>simp add: scan_key_quote dict_set_fresh is_ws_def\<close>)
next
  case (13 n k v kv kvs)
  have fresh: "k \<notin> set (map fst acc)" using "13.prems"(3) by simp
  from "13.IH"(1) [of "44 # 10 # indent n @ dump_members n (kv # kvs) @ 10 # indent m @ 125 # rest"] "13.prems"
  obtain f1 where
    IH1: "\<forall>f\<ge>f1. scan_value f (dump n v @ 44 # 10 # indent n @ dump_members n (kv # kvs) @ 10 # indent m @ 125 # rest)
            = Scanned v (44 # 10 # indent n @ dump_members n (kv # kvs) @ 10 # indent m @ 125 # rest)"
    by auto
  from "13.IH"(2) [of "acc @ [(k, v)]" m rest] "13.prems" obtain f2 where
    IH2: "\<forall>f\<ge>f2. scan_members f (acc @ [(k, v)]) (dump_members n (kv # kvs) @ 10 # indent m @ 125 # rest)
            = Scanned ((acc @ [(k, v)]) @ kv # kvs) rest"
    by auto
  obtain c t where ct: "dump n v = c # t" "\<not> is_ws c" using dump_first by blast
  obtain t' where t': "dump_members n (kv # kvs) = 34 # t'" using dump_members_first by blast
  show ?case
    by (rule fuel_step2 [OF IH1 IH2])
      (use ct t' fresh in \<open>simp add: scan_key_quote dict_set_fresh is_ws_def\<close>)
qed auto


subsection \<open>\<open>json.loads\<close> and the printer\<close>

text \<open>
  \<open>json.loads\<close> reads back what \<open>model_dump_json\<close> printed: the scanner, given the
  fuel \<open>json_loads\<close> supplies, yields exactly the printed value and nothing after it.
\<close>

lemma json_loads_dump:
  assumes "dump_ok v"
  shows "json_loads (dump 0 v) = Some v"
proof -
  let ?s = "dump 0 v"
  let ?B = "Suc (2 * length ?s)"
  obtain f0 where rt: "\<forall>f\<ge>f0. scan_value f (?s @ []) = Scanned v []"
    using dump_scan_all(1) [OF assms, of "[]" 0] by auto
  obtain c t where ct: "?s = c # t" "\<not> is_ws c" "c \<noteq> 65279"
    using dump_first by blast
  have ne: "scan_value ?B ?s \<noteq> NoFuel"
    by (rule scan_value_fuel_enough) simp
  have "scan_value (max f0 ?B) ?s = scan_value ?B ?s"
    by (rule scan_value_mono [OF ne]) simp
  moreover have "scan_value (max f0 ?B) ?s = Scanned v []"
    using rt by simp
  ultimately have "scan_value ?B ?s = Scanned v []"
    by simp
  with ct show ?thesis
    by (simp add: json_loads_def)
qed

subsection \<open>The printer's characters\<close>

text \<open>Outside ASCII the printer writes exactly the characters of the value's strings.\<close>

lemma escape_char_nonascii: "128 \<le> c \<Longrightarrow> c \<in> set (escape_char x) \<longleftrightarrow> c = x"
  by (auto simp: escape_char_def hexdig_def)

lemma quote_nonascii: "128 \<le> c \<Longrightarrow> c \<in> set (quote s) \<longleftrightarrow> c \<in> set s"
  by (auto simp: quote_def escape_char_nonascii)

lemma show_int_ascii: "128 \<le> c \<Longrightarrow> c \<notin> set (show_int i)"
  using show_nat_digits by (cases "i < 0") (fastforce simp: is_digit_def)+

lemma indent_ascii: "128 \<le> c \<Longrightarrow> c \<notin> set (indent n)"
  by (simp add: indent_def)

lemma dump_float_ascii: "128 \<le> c \<Longrightarrow> c \<notin> set (dump_float x)"
  by (cases x) (simp_all add: show_int_ascii)

lemma dump_nonascii:
  "128 \<le> c \<Longrightarrow> c \<in> set (dump n v) \<longleftrightarrow> c \<in> set (str_chars v)"
  "128 \<le> c \<Longrightarrow> c \<in> set (dump_elems n xs) \<longleftrightarrow> c \<in> set (str_chars_elems xs)"
  "128 \<le> c \<Longrightarrow> c \<in> set (dump_members n kvs) \<longleftrightarrow> c \<in> set (str_chars_members kvs)"
  by (induction n v and n xs and n kvs rule: dump_dump_elems_dump_members.induct)
    (simp_all add: quote_nonascii show_int_ascii indent_ascii dump_float_ascii)

text \<open>The printer writes no raw carriage return: a \<open>\r\<close> in a string is escaped.\<close>

lemma escape_char_no_cr: "13 \<notin> set (escape_char x)"
  by (simp add: escape_char_def hexdig_def)

lemma show_int_no_cr: "13 \<notin> set (show_int i)"
  using show_nat_digits by (cases "i < 0") (fastforce simp: is_digit_def)+

lemma dump_float_no_cr: "13 \<notin> set (dump_float x)"
  by (cases x) (simp_all add: show_int_no_cr)

lemma dump_no_cr:
  "13 \<notin> set (dump n v)" "13 \<notin> set (dump_elems n xs)" "13 \<notin> set (dump_members n kvs)"
  by (induction n v and n xs and n kvs rule: dump_dump_elems_dump_members.induct)
    (simp_all add: quote_def escape_char_no_cr show_int_no_cr indent_def dump_float_no_cr)

end
