(* ===== verification/Schema.thy ===== *)
theory Schema
  imports Json
begin

text \<open>
  The pydantic models of \<open>src/pdf_to_json.py\<close> (lines 12--31: \<open>Options\<close>,
  \<open>ExamProblem\<close>, \<open>ExamSet\<close>) as records, \<open>ExamSet.model_validate\<close> (line 109) as a
  validator from the decoded JSON to the records that collects every error with its
  location, and the records' dump to a JSON value (what \<open>model_dump_json\<close> prints,
  line 122). Validation follows pydantic's lax (Python) mode: an \<open>int\<close> field also
  takes a bool, an integral float and a numeric string; a \<open>str\<close> field takes only a
  string; the \<open>Literal\<close> field takes only one of its two strings; extra keys are
  ignored.
\<close>

subsection \<open>The models\<close>

datatype subject = Process | Industry

record options =
  opt_A :: ustr
  opt_B :: ustr
  opt_C :: ustr
  opt_D :: ustr

record exam_problem =
  year :: int
  exam_number :: ustr
  source :: ustr
  number :: int
  subject :: subject
  question :: ustr
  options :: options
  answer :: ustr

record exam_set =
  problems :: "exam_problem list"

subsection \<open>Validation errors\<close>

text \<open>
  A location is the path of keys and list indices to the offending value, as in
  pydantic's \<open>loc\<close>; the error types are pydantic's.
\<close>

datatype loc_item = LKey ustr | LIdx nat

datatype err_type =
    Missing | ModelType | ListType | StringType | LiteralError
  | IntType | IntParsing | IntParsingSize | IntFromFloat | FiniteNumber

type_synonym verr = "loc_item list \<times> err_type"

type_synonym 'a validated = "verr list + 'a"

definition err :: "err_type \<Rightarrow> 'a validated" where
  "err t = Inl [([], t)]"

fun errs_of :: "'a validated \<Rightarrow> verr list" where
  "errs_of (Inl es) = es"
| "errs_of (Inr x) = []"

text \<open>Both parts are validated; the errors of both are reported, in order.\<close>

definition vpair :: "'a validated \<Rightarrow> 'b validated \<Rightarrow> ('a \<times> 'b) validated" where
  "vpair a b =
     (case a of
        Inr x \<Rightarrow> (case b of Inr y \<Rightarrow> Inr (x, y) | Inl es \<Rightarrow> Inl es)
      | Inl es \<Rightarrow> Inl (es @ errs_of b))"

definition vmap :: "('a \<Rightarrow> 'b) \<Rightarrow> 'a validated \<Rightarrow> 'b validated" where
  "vmap g a = (case a of Inr x \<Rightarrow> Inr (g x) | Inl es \<Rightarrow> Inl es)"

definition at_loc :: "loc_item \<Rightarrow> 'a validated \<Rightarrow> 'a validated" where
  "at_loc l a = (case a of Inr x \<Rightarrow> Inr x | Inl es \<Rightarrow> Inl (map (\<lambda>(p, t). (l # p, t)) es))"

text \<open>A required field of a model: \<open>missing\<close> when the key is absent.\<close>

definition field :: "ustr \<Rightarrow> (pyval \<Rightarrow> 'a validated) \<Rightarrow> (ustr \<times> pyval) list \<Rightarrow> 'a validated" where
  "field k check kvs =
     (case dict_get kvs k of
        None \<Rightarrow> Inl [([LKey k], Missing)]
      | Some v \<Rightarrow> at_loc (LKey k) (check v))"

subsection \<open>Scalar fields\<close>

text \<open>Rust's \<open>char::is_whitespace\<close>, which \<open>str::trim\<close> strips.\<close>

definition is_unicode_ws :: "nat \<Rightarrow> bool" where
  "is_unicode_ws c \<longleftrightarrow>
     (9 \<le> c \<and> c \<le> 13) \<or> c = 32 \<or> c = 133 \<or> c = 160 \<or> c = 5760 \<or>
     (8192 \<le> c \<and> c \<le> 8202) \<or> c = 8232 \<or> c = 8233 \<or> c = 8239 \<or> c = 8287 \<or> c = 12288"

definition trim :: "ustr \<Rightarrow> ustr" where
  "trim s = rev (dropWhile is_unicode_ws (rev (dropWhile is_unicode_ws s)))"

text \<open>Rust's \<open>i64::from_str\<close> / \<open>BigInt::from_str\<close>: an optional sign and decimal digits.\<close>

definition parse_int_str :: "ustr \<Rightarrow> int option" where
  "parse_int_str s =
     (let (sg, ds) = (case s of
                        c # r \<Rightarrow> if c = 43 then (1, r) else if c = 45 then (-1, r) else (1, s)
                      | [] \<Rightarrow> (1, s))
      in if ds \<noteq> [] \<and> list_all is_digit ds then Some (sg * int (digits_val ds)) else None)"

text \<open>\<open>strip_decimal_zeros\<close>: \<open>"12.000"\<close> is read as \<open>"12"\<close>.\<close>

definition strip_decimal_zeros :: "ustr \<Rightarrow> ustr option" where
  "strip_decimal_zeros s =
     (if 46 \<in> set s \<and> list_all (\<lambda>c. c = 48) (tl (dropWhile (\<lambda>c. c \<noteq> 46) s))
      then Some (takeWhile (\<lambda>c. c \<noteq> 46) s) else None)"

text \<open>pydantic-core's \<open>str_as_int\<close>.\<close>

definition str_as_int :: "ustr \<Rightarrow> int validated" where
  "str_as_int s0 =
     (let s = trim s0 in
      if 4300 < length s then err IntParsingSize
      else
        (case parse_int_str s of
           Some i \<Rightarrow> Inr i
         | None \<Rightarrow>
             (case strip_decimal_zeros s of
                Some t \<Rightarrow> (case parse_int_str t of Some i \<Rightarrow> Inr i | None \<Rightarrow> err IntParsing)
              | None \<Rightarrow> err IntParsing)))"

text \<open>
  pydantic-core's \<open>float_as_int\<close>: a non-finite float is refused, a fractional one
  too, and an integral one must lie strictly inside the \<open>i64\<close> range.
\<close>

definition float_as_int :: "pyfloat \<Rightarrow> int validated" where
  "float_as_int x =
     (case x of
        FDec m e \<Rightarrow>
          (if 0 \<le> e then
             (let i = m * 10 ^ nat e in
              if \<bar>i\<bar> < 2 ^ 63 then Inr i else err IntParsingSize)
           else if m mod 10 ^ nat (- e) = 0 then
             (let i = m div 10 ^ nat (- e) in
              if \<bar>i\<bar> < 2 ^ 63 then Inr i else err IntParsingSize)
           else err IntFromFloat)
      | _ \<Rightarrow> err FiniteNumber)"

definition validate_int :: "pyval \<Rightarrow> int validated" where
  "validate_int v =
     (case v of
        PInt i \<Rightarrow> Inr i
      | PBool b \<Rightarrow> Inr (if b then 1 else 0)
      | PFloat x \<Rightarrow> float_as_int x
      | PStr s \<Rightarrow> str_as_int s
      | _ \<Rightarrow> err IntType)"

definition validate_str :: "pyval \<Rightarrow> ustr validated" where
  "validate_str v = (case v of PStr s \<Rightarrow> Inr s | _ \<Rightarrow> err StringType)"

definition subject_str :: "subject \<Rightarrow> ustr" where
  "subject_str s = (case s of Process \<Rightarrow> U ''process'' | Industry \<Rightarrow> U ''industry'')"

text \<open>\<open>Literal["process", "industry"]\<close>.\<close>

definition validate_subject :: "pyval \<Rightarrow> subject validated" where
  "validate_subject v =
     (if v = PStr (U ''process'') then Inr Process
      else if v = PStr (U ''industry'') then Inr Industry
      else err LiteralError)"

subsection \<open>Models\<close>

definition validate_options :: "pyval \<Rightarrow> options validated" where
  "validate_options v =
     (case v of
        PDict kvs \<Rightarrow>
          vmap (\<lambda>(a, b, c, d). \<lparr>opt_A = a, opt_B = b, opt_C = c, opt_D = d\<rparr>)
            (vpair (field (U ''A'') validate_str kvs)
              (vpair (field (U ''B'') validate_str kvs)
                (vpair (field (U ''C'') validate_str kvs)
                  (field (U ''D'') validate_str kvs))))
      | _ \<Rightarrow> err ModelType)"

definition validate_problem :: "pyval \<Rightarrow> exam_problem validated" where
  "validate_problem v =
     (case v of
        PDict kvs \<Rightarrow>
          vmap (\<lambda>(y, en, src, n, sub, q, opts, ans).
                  \<lparr>year = y, exam_number = en, source = src, number = n, subject = sub,
                   question = q, options = opts, answer = ans\<rparr>)
            (vpair (field (U ''year'') validate_int kvs)
              (vpair (field (U ''exam_number'') validate_str kvs)
                (vpair (field (U ''source'') validate_str kvs)
                  (vpair (field (U ''number'') validate_int kvs)
                    (vpair (field (U ''subject'') validate_subject kvs)
                      (vpair (field (U ''question'') validate_str kvs)
                        (vpair (field (U ''options'') validate_options kvs)
                          (field (U ''answer'') validate_str kvs))))))))
      | _ \<Rightarrow> err ModelType)"

text \<open>\<open>List[ExamProblem]\<close>: every item is validated, its errors located at its index.\<close>

fun validate_items :: "nat \<Rightarrow> pyval list \<Rightarrow> exam_problem list validated" where
  "validate_items i [] = Inr []"
| "validate_items i (x # xs) =
     vmap (\<lambda>(p, ps). p # ps) (vpair (at_loc (LIdx i) (validate_problem x)) (validate_items (Suc i) xs))"

definition validate_problem_list :: "pyval \<Rightarrow> exam_problem list validated" where
  "validate_problem_list v = (case v of PList xs \<Rightarrow> validate_items 0 xs | _ \<Rightarrow> err ListType)"

text \<open>\<open>ExamSet.model_validate\<close>.\<close>

definition model_validate :: "pyval \<Rightarrow> exam_set validated" where
  "model_validate v =
     (case v of
        PDict kvs \<Rightarrow> vmap (\<lambda>ps. \<lparr>problems = ps\<rparr>) (field (U ''problems'') validate_problem_list kvs)
      | _ \<Rightarrow> err ModelType)"

subsection \<open>The records as JSON values\<close>

text \<open>\<open>model_dump\<close>: the fields in declaration order.\<close>

definition dump_options :: "options \<Rightarrow> pyval" where
  "dump_options opts =
     PDict [(U ''A'', PStr (opt_A opts)), (U ''B'', PStr (opt_B opts)),
            (U ''C'', PStr (opt_C opts)), (U ''D'', PStr (opt_D opts))]"

definition dump_problem :: "exam_problem \<Rightarrow> pyval" where
  "dump_problem p =
     PDict [(U ''year'', PInt (year p)), (U ''exam_number'', PStr (exam_number p)),
            (U ''source'', PStr (source p)), (U ''number'', PInt (number p)),
            (U ''subject'', PStr (subject_str (subject p))), (U ''question'', PStr (question p)),
            (U ''options'', dump_options (options p)), (U ''answer'', PStr (answer p))]"

definition dump_exam_set :: "exam_set \<Rightarrow> pyval" where
  "dump_exam_set es = PDict [(U ''problems'', PList (map dump_problem (problems es)))]"

subsection \<open>Lemmas\<close>

lemma vpair_Inr [simp]: "vpair (Inr x) (Inr y) = Inr (x, y)"
  by (simp add: vpair_def)

lemma vmap_Inr [simp]: "vmap g (Inr x) = Inr (g x)"
  by (simp add: vmap_def)

lemma at_loc_Inr [simp]: "at_loc l (Inr x) = Inr x"
  by (simp add: at_loc_def)

lemma field_present [simp]: "dict_get kvs k = Some v \<Longrightarrow> field k check kvs = at_loc (LKey k) (check v)"
  by (simp add: field_def)

lemma validate_options_dump [simp]: "validate_options (dump_options opts) = Inr opts"
  by (simp add: validate_options_def dump_options_def validate_str_def)

lemma validate_subject_str [simp]: "validate_subject (PStr (subject_str s)) = Inr s"
  by (cases s) (simp_all add: validate_subject_def subject_str_def)

lemma validate_problem_dump [simp]: "validate_problem (dump_problem p) = Inr p"
  by (simp add: validate_problem_def dump_problem_def validate_str_def validate_int_def)

lemma validate_items_dump: "validate_items i (map dump_problem ps) = Inr ps"
  by (induction ps arbitrary: i) simp_all

theorem model_validate_dump: "model_validate (dump_exam_set es) = Inr es"
  by (simp add: model_validate_def dump_exam_set_def validate_problem_list_def validate_items_dump)

lemma dump_ok_exam_set: "dump_ok (dump_exam_set es)"
  by (simp add: dump_exam_set_def dump_problem_def dump_options_def list_all_iff)

lemma errs_vpair [simp]: "errs_of (vpair a b) = errs_of a @ errs_of b"
  by (cases a; cases b) (simp_all add: vpair_def)

lemma errs_vmap [simp]: "errs_of (vmap g a) = errs_of a"
  by (cases a) (simp_all add: vmap_def)

lemma errs_at_loc [simp]: "errs_of (at_loc l a) = map (\<lambda>(p, t). (l # p, t)) (errs_of a)"
  by (cases a) (simp_all add: at_loc_def)

lemma errs_field_missing [simp]: "dict_get kvs k = None \<Longrightarrow> errs_of (field k check kvs) = [([LKey k], Missing)]"
  by (simp add: field_def)

lemma errs_nonempty_Inl: "e \<in> set (errs_of r) \<Longrightarrow> \<exists>es. r = Inl es \<and> e \<in> set es"
  by (cases r) auto

lemma errs_validate_items:
  "j < length xs \<Longrightarrow> (p, t) \<in> set (errs_of (validate_problem (xs ! j))) \<Longrightarrow>
   (LIdx (i + j) # p, t) \<in> set (errs_of (validate_items i xs))"
proof (induction xs arbitrary: i j)
  case Nil
  then show ?case by simp
next
  case (Cons x xs)
  show ?case
  proof (cases j)
    case 0
    with Cons.prems show ?thesis by force
  next
    case (Suc j')
    with Cons.prems have "(LIdx (Suc i + j') # p, t) \<in> set (errs_of (validate_items (Suc i) xs))"
      by (intro Cons.IH) auto
    with Suc show ?thesis by simp
  qed
qed

lemma errs_problem_field:
  assumes "v = PDict kvs" and "dict_get kvs (U ''problems'') = Some (PList xs)"
    and "j < length xs" and "(p, t) \<in> set (errs_of (validate_problem (xs ! j)))"
  shows "\<exists>es. model_validate v = Inl es \<and> (LKey (U ''problems'') # LIdx j # p, t) \<in> set es"
proof -
  have "(LIdx j # p, t) \<in> set (errs_of (validate_items 0 xs))"
    using errs_validate_items [OF assms(3,4), of 0] by simp
  then have "(LKey (U ''problems'') # LIdx j # p, t) \<in> set (errs_of (model_validate v))"
    using assms(1,2) by (force simp: model_validate_def validate_problem_list_def)
  then show ?thesis by (rule errs_nonempty_Inl)
qed


lemma show_int_no_ws: "c \<in> set (show_int i) \<Longrightarrow> \<not> is_unicode_ws c"
  using show_nat_digits
  by (cases "i < 0") (fastforce simp: is_unicode_ws_def is_digit_def)+

lemma no_ws_trim: "(\<And>c. c \<in> set s \<Longrightarrow> \<not> is_unicode_ws c) \<Longrightarrow> trim s = s"
proof -
  assume h: "\<And>c. c \<in> set s \<Longrightarrow> \<not> is_unicode_ws c"
  then have "dropWhile is_unicode_ws s = s" by (simp add: dropWhile_eq_self_iff)
  moreover have "dropWhile is_unicode_ws (rev s) = rev s"
    using h by (cases s rule: rev_cases) (simp_all add: dropWhile_eq_self_iff hd_rev)
  ultimately show ?thesis by (simp add: trim_def)
qed

lemma parse_int_str_show_nat: "parse_int_str (show_nat n) = Some (int n)"
proof -
  obtain c r where cr: "show_nat n = c # r" using show_nat_Cons by blast
  then have "is_digit c" using show_nat_digits [of c n] by simp
  then have "c \<noteq> 43 \<and> c \<noteq> 45" by (auto simp: is_digit_def)
  then show ?thesis
    using cr show_nat_digits [of _ n] digits_val_show_nat [of n]
    by (simp add: parse_int_str_def list_all_iff)
qed

lemma parse_int_str_show_int: "parse_int_str (show_int i) = Some i"
proof (cases "i < 0")
  case True
  then show ?thesis
    using show_nat_digits [of _ "nat (- i)"]
    by (simp add: parse_int_str_def list_all_iff)
next
  case False
  then show ?thesis using parse_int_str_show_nat [of "nat i"] by simp
qed

lemma str_as_int_show_int: "length (show_int i) \<le> 4300 \<Longrightarrow> str_as_int (show_int i) = Inr i"
  by (simp add: str_as_int_def no_ws_trim show_int_no_ws parse_int_str_show_int)

text \<open>
  C16: when an item of \<open>problems\<close> has an \<open>options\<close> object that lacks one of
  \<open>A\<close>--\<open>D\<close>, validation fails and reports a \<open>missing\<close> error located at
  \<open>problems.j.options.k\<close>.
\<close>

theorem missing_option_rejected:
  assumes "dict_get kvs (U ''problems'') = Some (PList xs)" and "j < length xs"
    and "xs ! j = PDict pk" and "dict_get pk (U ''options'') = Some (PDict ok)"
    and "k \<in> set [U ''A'', U ''B'', U ''C'', U ''D'']" and "dict_get ok k = None"
  shows "\<exists>es. model_validate (PDict kvs) = Inl es \<and>
           ([LKey (U ''problems''), LIdx j, LKey (U ''options''), LKey k], Missing) \<in> set es"
proof -
  have "([LKey (U ''options''), LKey k], Missing) \<in> set (errs_of (validate_problem (xs ! j)))"
    using assms(3-6) by (auto simp: validate_problem_def validate_options_def)
  then show ?thesis
    using errs_problem_field [OF refl assms(1,2)] by simp
qed

text \<open>
  C17: a \<open>subject\<close> other than the strings \<open>process\<close> and \<open>industry\<close> makes
  validation fail with a literal error located at \<open>problems.j.subject\<close>.
\<close>

theorem subject_outside_literal_rejected:
  assumes "dict_get kvs (U ''problems'') = Some (PList xs)" and "j < length xs"
    and "xs ! j = PDict pk" and "dict_get pk (U ''subject'') = Some s"
    and "s \<noteq> PStr (U ''process'')" and "s \<noteq> PStr (U ''industry'')"
  shows "\<exists>es. model_validate (PDict kvs) = Inl es \<and>
           ([LKey (U ''problems''), LIdx j, LKey (U ''subject'')], LiteralError) \<in> set es"
proof -
  have "([LKey (U ''subject'')], LiteralError) \<in> set (errs_of (validate_problem (xs ! j)))"
    using assms(3-6) by (simp add: validate_problem_def validate_subject_def err_def)
  then show ?thesis
    using errs_problem_field [OF refl assms(1,2)] by simp
qed


theorem missing_option_rejected_witness:
  "\<exists>es. model_validate (PDict [(U ''problems'', PList [PDict [(U ''options'', PDict [])]])]) = Inl es \<and>
     ([LKey (U ''problems''), LIdx 0, LKey (U ''options''), LKey (U ''A'')], Missing) \<in> set es"
  by (rule missing_option_rejected [where xs = "[PDict [(U ''options'', PDict [])]]" and
        pk = "[(U ''options'', PDict [])]" and ok = "[]"]) simp_all

theorem subject_outside_literal_rejected_witness:
  "\<exists>es. model_validate (PDict [(U ''problems'', PList [PDict [(U ''subject'', PStr (U ''math''))]])]) = Inl es \<and>
     ([LKey (U ''problems''), LIdx 0, LKey (U ''subject'')], LiteralError) \<in> set es"
  by (rule subject_outside_literal_rejected [where xs = "[PDict [(U ''subject'', PStr (U ''math''))]]" and
        pk = "[(U ''subject'', PStr (U ''math''))]" and s = "PStr (U ''math'')"]) simp_all

text \<open>
  C18: an \<open>int\<close> field given as a decimal string (of at most 4300 characters, the
  limit of pydantic's string-to-int parsing) is read as the integer it denotes.
\<close>

theorem validate_int_decimal_string:
  "length (show_int i) \<le> 4300 \<Longrightarrow> validate_int (PStr (show_int i)) = Inr i"
  by (simp add: validate_int_def str_as_int_show_int)

theorem validate_int_decimal_string_witness:
  "length (show_int (-12)) \<le> 4300 \<and> validate_int (PStr (show_int (-12))) = Inr (-12)"
proof -
  have h: "length (show_int (-12)) \<le> 4300"
    by (simp add: show_int_def show_nat_def nat_digits.simps)
  show ?thesis using h validate_int_decimal_string [OF h] by blast
qed

lemma vpair_Inr_iff: "vpair a b = Inr xy \<longleftrightarrow> (\<exists>x y. a = Inr x \<and> b = Inr y \<and> xy = (x, y))"
  by (auto simp: vpair_def split: sum.splits)

lemma vmap_Inr_iff: "vmap g a = Inr z \<longleftrightarrow> (\<exists>x. a = Inr x \<and> z = g x)"
  by (auto simp: vmap_def split: sum.splits)

lemma at_loc_Inr_iff: "at_loc l a = Inr x \<longleftrightarrow> a = Inr x"
  by (auto simp: at_loc_def split: sum.splits)

lemma field_Inr:
  "field k check kvs = Inr x \<Longrightarrow> \<exists>v. dict_get kvs k = Some v \<and> check v = Inr x"
  by (auto simp: field_def at_loc_Inr_iff split: option.splits)

lemma validate_problem_year:
  "validate_problem (PDict kvs) = Inr p \<Longrightarrow>
   \<exists>v. dict_get kvs (U ''year'') = Some v \<and> validate_int v = Inr (year p)"
  unfolding validate_problem_def
  by (auto simp: vpair_Inr_iff vmap_Inr_iff dest!: field_Inr)

text \<open>
  C19: when a problem validates and its \<open>year\<close> was given as a float, the float was
  accepted by pydantic's float-to-int rule and the record's year lies strictly inside
  the \<open>i64\<close> range.
\<close>

theorem validated_year_from_float_in_i64:
  assumes "validate_problem (PDict kvs) = Inr p" and "dict_get kvs (U ''year'') = Some (PFloat x)"
  shows "float_as_int x = Inr (year p) \<and> \<bar>year p\<bar> < 2 ^ 63"
proof -
  have f: "float_as_int x = Inr (year p)"
    using validate_problem_year [OF assms(1)] assms(2) by (auto simp: validate_int_def)
  then show ?thesis
    by (auto simp: float_as_int_def err_def Let_def split: pyfloat.splits if_splits)
qed

theorem validated_year_from_float_in_i64_witness:
  "validate_problem (PDict [(U ''year'', PFloat (FDec 1110 (-1))), (U ''exam_number'', PStr (U ''1'')),
     (U ''source'', PStr (U ''a.pdf'')), (U ''number'', PInt 1), (U ''subject'', PStr (U ''process'')),
     (U ''question'', PStr (U ''Q'')),
     (U ''options'', PDict [(U ''A'', PStr (U ''a'')), (U ''B'', PStr (U ''b'')), (U ''C'', PStr (U ''c'')), (U ''D'', PStr (U ''d''))]),
     (U ''answer'', PStr (U ''A''))]) =
   Inr \<lparr>year = 111, exam_number = U ''1'', source = U ''a.pdf'', number = 1, subject = Process,
        question = U ''Q'', options = \<lparr>opt_A = U ''a'', opt_B = U ''b'', opt_C = U ''c'', opt_D = U ''d''\<rparr>,
        answer = U ''A''\<rparr> \<and>
   float_as_int (FDec 1110 (-1)) = Inr 111 \<and> \<bar>111 :: int\<bar> < 2 ^ 63"
proof -
  have h: "validate_problem (PDict [(U ''year'', PFloat (FDec 1110 (-1))), (U ''exam_number'', PStr (U ''1'')),
     (U ''source'', PStr (U ''a.pdf'')), (U ''number'', PInt 1), (U ''subject'', PStr (U ''process'')),
     (U ''question'', PStr (U ''Q'')),
     (U ''options'', PDict [(U ''A'', PStr (U ''a'')), (U ''B'', PStr (U ''b'')), (U ''C'', PStr (U ''c'')), (U ''D'', PStr (U ''d''))]),
     (U ''answer'', PStr (U ''A''))]) =
   Inr \<lparr>year = 111, exam_number = U ''1'', source = U ''a.pdf'', number = 1, subject = Process,
        question = U ''Q'', options = \<lparr>opt_A = U ''a'', opt_B = U ''b'', opt_C = U ''c'', opt_D = U ''d''\<rparr>,
        answer = U ''A''\<rparr>"
    by (simp add: validate_problem_def validate_int_def float_as_int_def validate_str_def
        validate_subject_def validate_options_def field_def)
  have y: "dict_get [(U ''year'', PFloat (FDec 1110 (-1))), (U ''exam_number'', PStr (U ''1'')),
     (U ''source'', PStr (U ''a.pdf'')), (U ''number'', PInt 1), (U ''subject'', PStr (U ''process'')),
     (U ''question'', PStr (U ''Q'')),
     (U ''options'', PDict [(U ''A'', PStr (U ''a'')), (U ''B'', PStr (U ''b'')), (U ''C'', PStr (U ''c'')), (U ''D'', PStr (U ''d''))]),
     (U ''answer'', PStr (U ''A''))] (U ''year'') = Some (PFloat (FDec 1110 (-1)))"
    by simp
  show ?thesis using h validated_year_from_float_in_i64 [OF h y] by simp
qed

end
