(* ===== verification/Paths.thy ===== *)
theory Paths
  imports Prelude
begin

text \<open>
  Path handling of \<open>extract_exams_from_pdf\<close> (\<open>src/pdf_to_json.py\<close>, lines 45--51)
  and of the batch driver (line 165): CPython's \<open>posixpath.basename\<close>,
  \<open>posixpath.splitext\<close> (\<open>genericpath._splitext\<close>) and \<open>posixpath.join\<close>, over
  \<open>str\<close> values as code-point lists, with Python's \<open>str.rfind\<close> returning \<open>-1\<close>
  when the character is absent.
\<close>

definition rfind :: "ustr \<Rightarrow> nat \<Rightarrow> int" where
  "rfind s c =
     (let i = length (takeWhile (\<lambda>x. x \<noteq> c) (rev s)) in
      if i = length s then -1 else int (length s - 1 - i))"

text \<open>Python's slice \<open>p[a:b]\<close> for \<open>0 \<le> a\<close>.\<close>

definition slice :: "ustr \<Rightarrow> nat \<Rightarrow> nat \<Rightarrow> ustr" where
  "slice p a b = take (b - a) (drop a p)"

definition basename :: "ustr \<Rightarrow> ustr" where
  "basename p = drop (nat (rfind p 47 + 1)) p"

text \<open>
  \<open>_splitext(p, '/', None, '.')\<close>: the extension starts at the last dot if that dot
  comes after the last slash and the file name before it is not made of dots only
  (the \<open>while\<close> loop that skips leading dots).
\<close>

definition splitext :: "ustr \<Rightarrow> ustr \<times> ustr" where
  "splitext p =
     (let sepIndex = rfind p 47; dotIndex = rfind p 46 in
      if sepIndex < dotIndex \<and>
         list_ex (\<lambda>c. c \<noteq> 46) (slice p (nat (sepIndex + 1)) (nat dotIndex))
      then (take (nat dotIndex) p, drop (nat dotIndex) p)
      else (p, []))"

definition path_join :: "ustr \<Rightarrow> ustr \<Rightarrow> ustr" where
  "path_join a b =
     (if take 1 b = [47] then b
      else if a = [] \<or> last a = 47 then a @ b
      else a @ 47 # b)"

text \<open>Constants of the script (lines 49, 155, 163--165).\<close>

definition OUT_DIR :: ustr where
  "OUT_DIR = U ''./json''"

definition IN_DIR :: ustr where
  "IN_DIR = U ''./pdfs''"

definition out_suffix :: ustr where
  "out_suffix = U ''_structured_output.json''"

text \<open>
  Lines 45--51: the base name, its extension replaced by the suffix, joined to the
  output directory.
\<close>

definition output_filename :: "ustr \<Rightarrow> ustr" where
  "output_filename file_path = fst (splitext (basename file_path)) @ out_suffix"

definition output_filepath :: "ustr \<Rightarrow> ustr" where
  "output_filepath file_path = path_join OUT_DIR (output_filename file_path)"

text \<open>Line 165: \<open>FILE_PATH = './pdfs/' + fname\<close>.\<close>

definition input_path :: "ustr \<Rightarrow> ustr" where
  "input_path fname = IN_DIR @ [47] @ fname"

subsection \<open>Lemmas\<close>

lemma nat_int_Suc [simp]: "nat (int n + 1) = Suc n"
  by simp

lemma rfind_ge: "-1 \<le> rfind s c"
  by (simp add: rfind_def Let_def)

lemma rfind_absent: "c \<notin> set s \<Longrightarrow> rfind s c = -1"
proof -
  assume "c \<notin> set s"
  then have "takeWhile (\<lambda>x. x \<noteq> c) (rev s) = rev s"
    by (induction s rule: rev_induct) auto
  then show ?thesis by (simp only: rfind_def Let_def length_rev) simp
qed

lemma rfind_last: "c \<notin> set ys \<Longrightarrow> rfind (xs @ c # ys) c = int (length xs)"
proof -
  assume "c \<notin> set ys"
  then have "takeWhile (\<lambda>x. x \<noteq> c) (rev ys @ c # rev xs) = rev ys"
    by (induction ys rule: rev_induct) auto
  then show ?thesis by (simp add: rfind_def)
qed

lemma rfind_split: "c \<in> set s \<Longrightarrow> \<exists>xs ys. s = xs @ c # ys \<and> c \<notin> set ys \<and> rfind s c = int (length xs)"
  using split_list_last rfind_last by metis

lemma splitext_append: "fst (splitext p) @ snd (splitext p) = p"
  by (simp add: splitext_def Let_def)

lemma basename_no_sep: "47 \<notin> set (basename p)"
proof (cases "47 \<in> set p")
  case True
  then obtain xs ys where "p = xs @ 47 # ys" "47 \<notin> set ys" "rfind p 47 = int (length xs)"
    using rfind_split by metis
  then show ?thesis by (simp add: basename_def)
qed (simp add: basename_def rfind_absent)

lemma basename_input_path: "47 \<notin> set fname \<Longrightarrow> basename (input_path fname) = fname"
  using rfind_last [of 47 fname IN_DIR] by (simp add: basename_def input_path_def)

lemma output_filepath_in_out_dir:
  "output_filepath fp = OUT_DIR @ 47 # output_filename fp"
proof -
  have "take 1 (output_filename fp) \<noteq> [47]"
  proof (cases "fst (splitext (basename fp))")
    case Nil
    then show ?thesis by (simp add: output_filename_def out_suffix_def)
  next
    case (Cons c r)
    have "c \<in> set (basename fp)"
      using Cons splitext_append [of "basename fp"] by (metis append_Cons list.set_intros(1) set_append UnI1)
    then have "c \<noteq> 47" using basename_no_sep by metis
    with Cons show ?thesis by (simp add: output_filename_def)
  qed
  then show ?thesis by (simp add: output_filepath_def path_join_def OUT_DIR_def)
qed

text \<open>
  C20: the output path of any input is a direct child of \<open>./json\<close>: the prefix
  \<open>./json/\<close> followed by a name without a slash.
\<close>

theorem output_filepath_child_of_out_dir:
  "\<exists>n. output_filepath fp = U ''./json/'' @ n \<and> 47 \<notin> set n"
proof -
  have "set (fst (splitext (basename fp))) \<subseteq> set (basename fp)"
    using splitext_append [of "basename fp"] by (metis set_append Un_upper1)
  then have "47 \<notin> set (output_filename fp)"
    using basename_no_sep [of fp] by (auto simp: output_filename_def out_suffix_def)
  then show ?thesis by (simp add: output_filepath_in_out_dir OUT_DIR_def)
qed

text \<open>
  C21: two file names of the listing with the same stem (the part before the
  extension) are mapped to the same output path, so the second is skipped.
\<close>

theorem same_stem_collision:
  assumes "47 \<notin> set a" "47 \<notin> set b" "fst (splitext a) = fst (splitext b)"
  shows "output_filepath (input_path a) = output_filepath (input_path b)"
  using assms by (simp add: output_filepath_def output_filename_def basename_input_path)

theorem same_stem_collision_witness:
  "47 \<notin> set (U ''a.pdf'') \<and> 47 \<notin> set (U ''a.txt'') \<and>
   fst (splitext (U ''a.pdf'')) = fst (splitext (U ''a.txt'')) \<and>
   output_filepath (input_path (U ''a.pdf'')) = output_filepath (input_path (U ''a.txt''))"
proof -
  have h: "47 \<notin> set (U ''a.pdf'')" "47 \<notin> set (U ''a.txt'')"
    "fst (splitext (U ''a.pdf'')) = fst (splitext (U ''a.txt''))"
    by (simp_all add: rfind_def splitext_def slice_def)
  show ?thesis using h same_stem_collision [OF h] by blast
qed

end
