(* ===== verification/Utf8.thy ===== *)
theory Utf8
  imports Json
begin

text \<open>
  Python's strict UTF-8 codec, used when the extractor writes its output file
  (\<open>open(output_filepath, 'w', encoding='utf-8')\<close>, line 121 of
  \<open>src/pdf_to_json.py\<close>) and when console output is encoded. A \<open>str\<close> may hold
  lone surrogates (a JSON escape such as \<open>\ud800\<close> produces one); encoding such a
  string raises \<open>UnicodeEncodeError\<close>, modelled as \<open>None\<close>.
\<close>

definition utf8_char :: "nat \<Rightarrow> bytes option" where
  "utf8_char c =
     (if c < 128 then Some [of_nat c]
      else if c < 2048 then Some [of_nat (192 + c div 64), of_nat (128 + c mod 64)]
      else if is_surrogate c then None
      else if c < 65536 then
        Some [of_nat (224 + c div 4096), of_nat (128 + c div 64 mod 64), of_nat (128 + c mod 64)]
      else if c < 1114112 then
        Some [of_nat (240 + c div 262144), of_nat (128 + c div 4096 mod 64),
              of_nat (128 + c div 64 mod 64), of_nat (128 + c mod 64)]
      else None)"

fun utf8_encode :: "ustr \<Rightarrow> bytes option" where
  "utf8_encode [] = Some []"
| "utf8_encode (c # s) =
     (case utf8_char c of
        None \<Rightarrow> None
      | Some b \<Rightarrow> (case utf8_encode s of None \<Rightarrow> None | Some bs \<Rightarrow> Some (b @ bs)))"

text \<open>A string the codec accepts: every code point a Unicode scalar value.\<close>

definition encodable :: "ustr \<Rightarrow> bool" where
  "encodable s \<longleftrightarrow> list_all (\<lambda>c. \<not> is_surrogate c \<and> c < 1114112) s"

text \<open>
  The strict decoder (\<open>bytes.decode('utf-8')\<close>, used when a file is opened in text
  mode): a lead byte and its continuation bytes; overlong forms, surrogates and code
  points past U+10FFFF are refused (\<open>UnicodeDecodeError\<close>, modelled as \<open>None\<close>).
  The result is the code point and the number of continuation bytes.
\<close>

definition utf8_seq :: "byte \<Rightarrow> bytes \<Rightarrow> (nat \<times> nat) option" where
  "utf8_seq b bs =
     (let c = unat b;
          cont = (\<lambda>i. i < length bs \<and> 128 \<le> unat (bs ! i) \<and> unat (bs ! i) < 192);
          v = (\<lambda>i. unat (bs ! i) - 128)
      in if c < 128 then Some (c, 0)
      else if 194 \<le> c \<and> c < 224 then
        (if cont 0 then Some ((c - 192) * 64 + v 0, 1) else None)
      else if 224 \<le> c \<and> c < 240 then
        (if cont 0 \<and> cont 1 \<and> (c = 224 \<longrightarrow> 160 \<le> unat (bs ! 0)) \<and> (c = 237 \<longrightarrow> unat (bs ! 0) < 160)
         then Some ((c - 224) * 4096 + v 0 * 64 + v 1, 2) else None)
      else if 240 \<le> c \<and> c < 245 then
        (if cont 0 \<and> cont 1 \<and> cont 2 \<and> (c = 240 \<longrightarrow> 144 \<le> unat (bs ! 0)) \<and> (c = 244 \<longrightarrow> unat (bs ! 0) < 144)
         then Some ((c - 240) * 262144 + v 0 * 4096 + v 1 * 64 + v 2, 3) else None)
      else None)"

fun utf8_decode :: "bytes \<Rightarrow> ustr option" where
  "utf8_decode [] = Some []"
| "utf8_decode (b # bs) =
     (case utf8_seq b bs of
        None \<Rightarrow> None
      | Some (c, k) \<Rightarrow> map_option (Cons c) (utf8_decode (drop k bs)))"

lemma utf8_char_Some_iff: "utf8_char c \<noteq> None \<longleftrightarrow> \<not> is_surrogate c \<and> c < 1114112"
  by (auto simp: utf8_char_def is_surrogate_def)

lemma utf8_encode_Some_iff: "utf8_encode s \<noteq> None \<longleftrightarrow> encodable s"
proof (induction s)
  case Nil
  then show ?case by (simp add: encodable_def)
next
  case (Cons c s)
  then show ?case
    using utf8_char_Some_iff [of c]
    by (auto simp: encodable_def split: option.splits)
qed

lemma utf8_encode_append:
  "utf8_encode (s @ t) =
     (case utf8_encode s of None \<Rightarrow> None
      | Some bs \<Rightarrow> (case utf8_encode t of None \<Rightarrow> None | Some cs \<Rightarrow> Some (bs @ cs)))"
  by (induction s) (auto split: option.splits)

lemma encodable_dump: "encodable (dump n v) \<longleftrightarrow> encodable (str_chars v)"
proof -
  have ascii: "\<not> is_surrogate c \<and> c < 1114112" if "c < 128" for c :: nat
    using that by (simp add: is_surrogate_def)
  show ?thesis
    unfolding encodable_def list_all_iff
  proof (intro iffI ballI)
    fix c assume all: "\<forall>c\<in>set (dump n v). \<not> is_surrogate c \<and> c < 1114112"
      and c: "c \<in> set (str_chars v)"
    show "\<not> is_surrogate c \<and> c < 1114112"
    proof (cases "c < 128")
      case False
      with c dump_nonascii(1) [of c n v] all show ?thesis by simp
    qed (rule ascii)
  next
    fix c assume all: "\<forall>c\<in>set (str_chars v). \<not> is_surrogate c \<and> c < 1114112"
      and c: "c \<in> set (dump n v)"
    show "\<not> is_surrogate c \<and> c < 1114112"
    proof (cases "c < 128")
      case False
      with c dump_nonascii(1) [of c n v] all show ?thesis by simp
    qed (rule ascii)
  qed
qed

text \<open>
  C22: the JSON text of a value can be written as UTF-8 exactly when none of the
  value's strings and keys holds a lone surrogate or a code point past U+10FFFF.
\<close>

theorem model_dump_utf8_iff:
  "utf8_encode (model_dump_json v) \<noteq> None \<longleftrightarrow> encodable (str_chars v)"
  by (simp only: model_dump_json_def utf8_encode_Some_iff encodable_dump)

lemma div64_split:
  "(c :: nat) = c div 64 * 64 + c mod 64"
  "c div 64 = c div 4096 * 64 + c div 64 mod 64"
  "c div 4096 = c div 262144 * 64 + c div 4096 mod 64"
proof -
  show "c = c div 64 * 64 + c mod 64" by simp
  show "c div 64 = c div 4096 * 64 + c div 64 mod 64"
    using div_mult2_eq [of c 64 64] by simp
  show "c div 4096 = c div 262144 * 64 + c div 4096 mod 64"
    using div_mult2_eq [of c 4096 64] by simp
qed

lemma utf8_char_seq:
  assumes "utf8_char c = Some (b # bs)"
  shows "utf8_seq b (bs @ rest) = Some (c, length bs)"
proof -
  have m: "x mod 64 < 64" for x :: nat by simp
  consider (one) "c < 128" | (two) "128 \<le> c" "c < 2048"
    | (three) "2048 \<le> c" "c < 65536" "\<not> is_surrogate c" | (four) "65536 \<le> c" "c < 1114112"
    using assms by (auto simp: utf8_char_def split: if_splits)
  then show ?thesis
  proof cases
    case one
    with assms have "b = of_nat c" "bs = []" by (auto simp: utf8_char_def)
    with one show ?thesis by (simp add: utf8_seq_def unat_of_nat Let_def)
  next
    case two
    then have r: "2 \<le> c div 64" "c div 64 < 32" by auto
    have b: "unat b = 192 + c div 64" and bs: "bs = [of_nat (128 + c mod 64)]"
      using assms two r by (auto simp: utf8_char_def unat_of_nat simp del: of_nat_add)
    show ?thesis using r m [of c]
      by (simp add: utf8_seq_def Let_def b bs unat_of_nat del: of_nat_add)
  next
    case three
    then have "c div 4096 < 16" by auto
    moreover have "c div 4096 = 0 \<Longrightarrow> 32 \<le> c div 64 mod 64" using three by auto
    moreover have "c div 64 mod 64 < 32" if h: "c div 4096 = 13"
    proof -
      have q1: "c div 64 div 64 = 13" using h by (simp add: div_mult2_eq [symmetric])
      have "c < 57344" using h div_less_iff_less_mult [of 4096 c 14] by simp
      then have q2: "c div 64 < 864" using three(3) by (simp add: is_surrogate_def div_less_iff_less_mult)
      have q3: "c div 64 = 64 * (c div 64 div 64) + c div 64 mod 64" by simp
      from q1 q2 q3 show ?thesis by linarith
    qed
    moreover have "c div 4096 * 4096 + c div 64 mod 64 * 64 + c mod 64 = c"
      using div64_split [of c] by linarith
    moreover have "unat b = 224 + c div 4096"
      and "bs = [of_nat (128 + c div 64 mod 64), of_nat (128 + c mod 64)]"
      using assms three \<open>c div 4096 < 16\<close>
      by (auto simp: utf8_char_def unat_of_nat simp del: of_nat_add)
    ultimately show ?thesis using m [of c] m [of "c div 64"]
      by (simp add: utf8_seq_def Let_def unat_of_nat del: of_nat_add)
  next
    case four
    then have "c div 262144 < 5" by auto
    moreover have "c div 262144 = 0 \<Longrightarrow> 16 \<le> c div 4096 mod 64" using four by auto
    moreover have "c div 4096 mod 64 < 16" if h: "c div 262144 = 4"
    proof -
      have "c div 4096 < 272" using four(2) by (simp add: div_less_iff_less_mult)
      then show ?thesis using h div64_split(3) [of c] by linarith
    qed
    moreover have "c div 262144 * 262144 + c div 4096 mod 64 * 4096 + c div 64 mod 64 * 64 + c mod 64 = c"
      using div64_split [of c] by linarith
    moreover have "unat b = 240 + c div 262144"
      and "bs = [of_nat (128 + c div 4096 mod 64), of_nat (128 + c div 64 mod 64), of_nat (128 + c mod 64)]"
      using assms four \<open>c div 262144 < 5\<close>
      by (auto simp: utf8_char_def unat_of_nat is_surrogate_def simp del: of_nat_add)
    moreover have "unat (of_nat (128 + x mod 64) :: byte) = 128 + x mod 64" for x :: nat
      using m [of x] by (simp add: unat_of_nat del: of_nat_add)
    ultimately show ?thesis
      by (simp add: utf8_seq_def Let_def del: of_nat_add)
  qed
qed

lemma utf8_decode_encode: "utf8_encode s = Some bs \<Longrightarrow> utf8_decode bs = Some s"
proof (induction s arbitrary: bs)
  case Nil
  then show ?case by simp
next
  case (Cons c s)
  then obtain cb sb where cb: "utf8_char c = Some cb" and sb: "utf8_encode s = Some sb"
    and bs: "bs = cb @ sb"
    by (auto split: option.splits)
  obtain b0 cs where "cb = b0 # cs"
    using cb by (cases cb) (auto simp: utf8_char_def split: if_splits)
  with bs cb sb Cons.IH show ?case
    using utf8_char_seq [of c b0 cs sb] by simp
qed
text \<open>
  C23: decoding the UTF-8 encoding of an encodable string gives the string back.
\<close>

theorem utf8_roundtrip: "encodable s \<Longrightarrow> utf8_decode (the (utf8_encode s)) = Some s"
  using utf8_encode_Some_iff [of s] utf8_decode_encode [of s] by auto

theorem utf8_roundtrip_witness:
  "encodable [65, 955, 8364, 128512] \<and>
   utf8_decode (the (utf8_encode [65, 955, 8364, 128512])) = Some [65, 955, 8364, 128512]"
proof -
  have h: "encodable [65, 955, 8364, 128512]" by (simp add: encodable_def is_surrogate_def)
  show ?thesis using h utf8_roundtrip [OF h] by blast
qed

end
