(* ===== verification/Extractor.thy ===== *)
theory Extractor
  imports Schema Paths Utf8
begin

text \<open>
  The extractor, \<open>src/pdf_to_json.py\<close>: \<open>extract_exams_from_pdf\<close> (lines 36--145)
  and the batch driver of the \<open>__main__\<close> block (lines 149--167). The program's
  effects are made explicit: a \<open>world\<close> holds the file system (path to entry), the
  console (the lines printed, as events) and the requests sent to the remote model;
  an \<open>env\<close> holds what the program does not control: the remote service's answer to
  each call and whether \<open>genai.Client()\<close> can be built. A Python statement is an
  action \<open>world \<Rightarrow> (exc \<times> world) + ('a \<times> world)\<close>: it returns a value and the new
  world, or raises an exception, the world keeping the effects done before the raise;
  \<open>act_try\<close> is \<open>try ... except\<close>.
\<close>

subsection \<open>The world\<close>

datatype fentry = File bytes | Dir

record request =
  req_model :: ustr
  req_pdf :: bytes
  req_prompt :: ustr

text \<open>
  The service's reply: a transport or service error raised by
  \<open>generate_content\<close>, or a response whose \<open>text\<close> may be \<open>None\<close>.
\<close>

datatype remote_result = RemoteFailure | RemoteText "ustr option"

datatype exc =
    JSONDecodeError | ValidationError "verr list" | TypeError | IsADirectoryError
  | FileNotFoundError | FileExistsError | NotADirectoryError | RemoteCallError | UnicodeEncodeError | ClientError
  | KeyError | IndexError | UnicodeDecodeError

text \<open>The console lines, one constructor per \<open>print\<close> site (line numbers of the source).\<close>

datatype event =
    EvNotFound ustr                 \<comment> \<open>line 41\<close>
  | EvSkipExisting ustr             \<comment> \<open>line 53\<close>
  | EvRequesting                    \<comment> \<open>line 95\<close>
  | EvParsed nat                    \<comment> \<open>lines 111--112\<close>
  | EvSampleQuestion int ustr       \<comment> \<open>line 117\<close>
  | EvSampleAnswer ustr             \<comment> \<open>line 118\<close>
  | EvSaved ustr                    \<comment> \<open>line 124\<close>
  | EvValidationFailed "verr list"  \<comment> \<open>lines 128--130\<close>
  | EvDecodeFailed ustr             \<comment> \<open>lines 132--134\<close>
  | EvError exc                     \<comment> \<open>line 137\<close>
  | EvProgress nat nat ustr         \<comment> \<open>line 166\<close>
  | EvSummary ustr                  \<comment> \<open>\<open>src/inspect_outputs.py\<close>, line 11\<close>

record world =
  fs :: "ustr \<Rightarrow> fentry option"
  console :: "event list"
  requests :: "request list"

record env =
  svc :: "nat \<Rightarrow> request \<Rightarrow> remote_result"
  client_ok :: bool
  pdf_listing :: "ustr list"

type_synonym 'a act = "world \<Rightarrow> (exc \<times> world) + ('a \<times> world)"

subsection \<open>Statements\<close>

definition act_ret :: "'a \<Rightarrow> 'a act" where
  "act_ret a w = Inr (a, w)"

definition act_raise :: "exc \<Rightarrow> 'a act" where
  "act_raise e w = Inl (e, w)"

definition act_bind :: "'a act \<Rightarrow> ('a \<Rightarrow> 'b act) \<Rightarrow> 'b act" where
  "act_bind m k w = (case m w of Inl ew \<Rightarrow> Inl ew | Inr (a, w') \<Rightarrow> k a w')"

definition act_try :: "'a act \<Rightarrow> (exc \<Rightarrow> 'a act) \<Rightarrow> 'a act" where
  "act_try m h w = (case m w of Inl (e, w') \<Rightarrow> h e w' | Inr r \<Rightarrow> Inr r)"

text \<open>
  \<open>print\<close>: the console encodes as strict UTF-8, so a line holding a lone surrogate
  raises \<open>UnicodeEncodeError\<close> and is not printed. Only the text that comes from
  data (paths, model output) can hold one; exceptions and validation errors print
  through \<open>repr\<close>, which escapes it.
\<close>

fun event_text :: "event \<Rightarrow> ustr list" where
  "event_text (EvNotFound p) = [p]"
| "event_text (EvSkipExisting p) = [p]"
| "event_text (EvSampleQuestion n q) = [q]"
| "event_text (EvSampleAnswer a) = [a]"
| "event_text (EvSaved n) = [n]"
| "event_text (EvDecodeFailed t) = [t]"
| "event_text (EvProgress i n p) = [p]"
| "event_text (EvSummary t) = [t]"
| "event_text _ = []"

definition printable :: "event \<Rightarrow> bool" where
  "printable ev \<longleftrightarrow> list_all encodable (event_text ev)"

definition py_print :: "event \<Rightarrow> unit act" where
  "py_print ev w =
     (if printable ev then Inr ((), w\<lparr>console := console w @ [ev]\<rparr>) else Inl (UnicodeEncodeError, w))"

text \<open>\<open>os.path.exists\<close>: a file or a directory.\<close>

definition path_exists :: "ustr \<Rightarrow> bool act" where
  "path_exists p w = Inr (fs w p \<noteq> None, w)"

text \<open>\<open>genai.Client()\<close>: fails when no API key is configured.\<close>

definition genai_client :: "env \<Rightarrow> unit act" where
  "genai_client env w = (if client_ok env then Inr ((), w) else Inl (ClientError, w))"

text \<open>\<open>pathlib.Path.read_bytes\<close>.\<close>

definition read_bytes :: "ustr \<Rightarrow> bytes act" where
  "read_bytes p w =
     (case fs w p of
        Some (File b) \<Rightarrow> Inr (b, w)
      | Some Dir \<Rightarrow> Inl (IsADirectoryError, w)
      | None \<Rightarrow> Inl (FileNotFoundError, w))"

text \<open>\<open>client.models.generate_content\<close>: one blocking call, no retry; the call is recorded.\<close>

definition generate_content :: "env \<Rightarrow> request \<Rightarrow> ustr option act" where
  "generate_content env req w =
     (let w' = w\<lparr>requests := requests w @ [req]\<rparr> in
      case svc env (length (requests w)) req of
        RemoteFailure \<Rightarrow> Inl (RemoteCallError, w')
      | RemoteText t \<Rightarrow> Inr (t, w'))"

text \<open>\<open>json.loads(response.text)\<close>: \<open>None\<close> is a \<open>TypeError\<close>, not a decode error.\<close>

definition loads_act :: "ustr option \<Rightarrow> pyval act" where
  "loads_act t =
     (case t of
        None \<Rightarrow> act_raise TypeError
      | Some s \<Rightarrow> (case json_loads s of None \<Rightarrow> act_raise JSONDecodeError | Some v \<Rightarrow> act_ret v))"

definition validate_act :: "pyval \<Rightarrow> exam_set act" where
  "validate_act v =
     (case model_validate v of Inl errs \<Rightarrow> act_raise (ValidationError errs) | Inr es \<Rightarrow> act_ret es)"

text \<open>\<open>open(path, 'w')\<close> creates or truncates the file before anything is written.\<close>

definition open_write :: "ustr \<Rightarrow> unit act" where
  "open_write p w = Inr ((), w\<lparr>fs := (fs w)(p \<mapsto> File [])\<rparr>)"

text \<open>\<open>f.write(text)\<close> with \<open>encoding='utf-8'\<close>: the text is encoded as a whole first.\<close>

definition write_text :: "ustr \<Rightarrow> ustr \<Rightarrow> unit act" where
  "write_text p text w =
     (case utf8_encode text of
        None \<Rightarrow> Inl (UnicodeEncodeError, w)
      | Some b \<Rightarrow> Inr ((), w\<lparr>fs := (fs w)(p \<mapsto> File b)\<rparr>))"

text \<open>\<open>os.makedirs(path, exist_ok=True)\<close>.\<close>

definition makedirs :: "ustr \<Rightarrow> unit act" where
  "makedirs p w =
     (case fs w p of
        None \<Rightarrow> Inr ((), w\<lparr>fs := (fs w)(p \<mapsto> Dir)\<rparr>)
      | Some Dir \<Rightarrow> Inr ((), w)
      | Some (File b) \<Rightarrow> Inl (FileExistsError, w))"

subsection \<open>\<open>extract_exams_from_pdf\<close>\<close>

definition MODEL :: ustr where
  "MODEL = U ''gemini-2.5-flash-lite''"

text \<open>The prompt of lines 78--83, around the file's base name.\<close>

definition prompt_head :: ustr where
  "prompt_head =
     [36889, 26159, 19968, 20221, 21253, 21547, 32, 53, 48, 32, 36947, 32771, 21476, 38988,
      30340, 32, 80, 68, 70, 32, 25991, 20214, 12290, 35531, 22196, 26684, 35299, 26512,
      25991, 20214, 20839, 23481, 65292, 23559, 25152, 26377, 38988, 30446, 32, 40, 21253, 21547,
      36984, 38917, 21644, 27491, 30906, 31572, 26696, 41, 32, 36681, 25563, 28858, 25105, 25351,
      23450, 30340, 32, 74, 83, 79, 78, 32, 26684, 24335, 12290, 35531, 30906, 20445,
      27599, 20491, 38988, 30446, 30340, 32, 39, 110, 117, 109, 98, 101, 114, 39,
      32, 27396, 20301, 26159, 24478, 32, 49, 32, 21040, 32, 53, 48, 32, 30340,
      25972, 25976, 65292, 20006, 19988, 32, 39, 115, 111, 117, 114, 99, 101, 39,
      32, 27396, 20301, 22266, 23450, 28858, 32, 39]"

definition prompt_tail :: ustr where
  "prompt_tail =
     [39, 12290, 23565, 26044, 32, 39, 115, 117, 98, 106, 101, 99, 116, 39,
      32, 27396, 20301, 65292, 35531, 26681, 25818, 38988, 30446, 20839, 23481, 21028, 26039, 26159,
      23660, 26044, 32, 39, 112, 114, 111, 99, 101, 115, 115, 39, 32, 40,
      35069, 31243, 30456, 38364, 41, 32, 36996, 26159, 32, 39, 105, 110, 100, 117,
      115, 116, 114, 121, 39, 32, 40, 29986, 26989, 27010, 35542, 30456, 38364, 41,
      12290, 35531, 21209, 24517, 30906, 20445, 36664, 20986, 30340, 32317, 38988, 25976, 26159, 32,
      53, 48, 32, 38988, 65292, 19988, 31572, 26696, 26159, 32, 65, 44, 32, 66,
      44, 32, 67, 44, 32, 68, 32, 20043, 19968, 12290]"

definition prompt_instruction :: "ustr \<Rightarrow> ustr" where
  "prompt_instruction file_name_only = prompt_head @ file_name_only @ prompt_tail"

text \<open>Lines 85--101: the PDF's bytes and the prompt, sent to the fixed model.\<close>

definition gemini_request :: "ustr \<Rightarrow> bytes \<Rightarrow> request" where
  "gemini_request file_path pdf =
     \<lparr>req_model = MODEL, req_pdf = pdf, req_prompt = prompt_instruction (basename file_path)\<rparr>"

text \<open>Lines 115--118: the first two problems, number, question prefix and answer.\<close>

fun print_samples :: "exam_problem list \<Rightarrow> unit act" where
  "print_samples [] = act_ret ()"
| "print_samples (p # ps) =
     act_bind (py_print (EvSampleQuestion (number p) (take 30 (question p)))) (\<lambda>_.
     act_bind (py_print (EvSampleAnswer (answer p))) (\<lambda>_.
     print_samples ps))"

text \<open>Lines 106--125, the body of the inner \<open>try\<close>.\<close>

definition parse_and_save :: "ustr \<Rightarrow> ustr option \<Rightarrow> exam_set option act" where
  "parse_and_save file_path text =
     act_bind (loads_act text) (\<lambda>raw_json_data.
     act_bind (validate_act raw_json_data) (\<lambda>validated_data.
     act_bind (py_print (EvParsed (length (problems validated_data)))) (\<lambda>_.
     act_bind (print_samples (take 2 (problems validated_data))) (\<lambda>_.
     act_bind (open_write (output_filepath file_path)) (\<lambda>_.
     act_bind (write_text (output_filepath file_path) (model_dump_json (dump_exam_set validated_data))) (\<lambda>_.
     act_bind (py_print (EvSaved (output_filename file_path))) (\<lambda>_.
     act_ret (Some validated_data))))))))"

text \<open>Lines 127--134: the two handlers of the inner \<open>try\<close>; other exceptions pass.\<close>

definition inner_handler :: "ustr option \<Rightarrow> exc \<Rightarrow> exam_set option act" where
  "inner_handler text e =
     (case e of
        ValidationError errs \<Rightarrow> act_bind (py_print (EvValidationFailed errs)) (\<lambda>_. act_ret None)
      | JSONDecodeError \<Rightarrow>
          act_bind (py_print (EvDecodeFailed (take 500 (case text of Some s \<Rightarrow> s | None \<Rightarrow> []) @ U ''...'')))
            (\<lambda>_. act_ret None)
      | _ \<Rightarrow> act_raise e)"

text \<open>Lines 71--134, the body of the outer \<open>try\<close>.\<close>

definition extract_body :: "env \<Rightarrow> ustr \<Rightarrow> exam_set option act" where
  "extract_body env file_path =
     act_bind (read_bytes file_path) (\<lambda>pdf.
     act_bind (py_print EvRequesting) (\<lambda>_.
     act_bind (generate_content env (gemini_request file_path pdf)) (\<lambda>text.
     act_try (parse_and_save file_path text) (inner_handler text))))"

text \<open>
  Lines 36--145. The existence checks and \<open>genai.Client()\<close> are outside the
  \<open>try\<close>: an exception there reaches the caller; every exception inside is printed
  and the function returns \<open>None\<close>.
\<close>

definition extract_exams_from_pdf :: "env \<Rightarrow> ustr \<Rightarrow> exam_set option act" where
  "extract_exams_from_pdf env file_path =
     act_bind (path_exists file_path) (\<lambda>found.
     if \<not> found then act_bind (py_print (EvNotFound file_path)) (\<lambda>_. act_ret None)
     else
     act_bind (path_exists (output_filepath file_path)) (\<lambda>done.
     if done then act_bind (py_print (EvSkipExisting (output_filepath file_path))) (\<lambda>_. act_ret None)
     else
     act_bind (genai_client env) (\<lambda>_.
     act_try (extract_body env file_path)
       (\<lambda>e. act_bind (py_print (EvError e)) (\<lambda>_. act_ret None)))))"

subsection \<open>The batch driver\<close>

text \<open>
  Lines 163--167: every entry of the listing, in listing order, with a progress line;
  an exception that leaves \<open>extract_exams_from_pdf\<close> ends the run.
\<close>

fun batch_loop :: "env \<Rightarrow> nat \<Rightarrow> nat \<Rightarrow> ustr list \<Rightarrow> unit act" where
  "batch_loop env n_files i [] = act_ret ()"
| "batch_loop env n_files i (fname # files) =
     act_bind (py_print (EvProgress (Suc i) n_files (input_path fname))) (\<lambda>_.
     act_bind (extract_exams_from_pdf env (input_path fname)) (\<lambda>_.
     batch_loop env n_files (Suc i) files))"

text \<open>\<open>os.listdir('./pdfs')\<close>: the names the platform lists, in its order.\<close>

definition listdir :: "env \<Rightarrow> ustr \<Rightarrow> ustr list act" where
  "listdir env p w =
     (case fs w p of
        Some Dir \<Rightarrow> Inr (pdf_listing env, w)
      | Some (File b) \<Rightarrow> Inl (NotADirectoryError, w)
      | None \<Rightarrow> Inl (FileNotFoundError, w))"

text \<open>Lines 155--167.\<close>

definition main_block :: "env \<Rightarrow> unit act" where
  "main_block env =
     act_bind (makedirs OUT_DIR) (\<lambda>_.
     act_bind (listdir env IN_DIR) (\<lambda>files.
     batch_loop env (length files) 0 files))"

subsection \<open>Observing a run\<close>

text \<open>The world after a statement, whether it returned or raised.\<close>

fun wof :: "(exc \<times> world) + ('a \<times> world) \<Rightarrow> world" where
  "wof (Inl (e, w)) = w"
| "wof (Inr (a, w)) = w"

text \<open>The file system differs at most on the paths of \<open>S\<close>.\<close>

definition fs_within :: "ustr set \<Rightarrow> world \<Rightarrow> world \<Rightarrow> bool" where
  "fs_within S w w' \<longleftrightarrow> (\<forall>p. p \<notin> S \<longrightarrow> fs w' p = fs w p)"

text \<open>Every path that existed keeps its entry.\<close>

definition fs_grows :: "world \<Rightarrow> world \<Rightarrow> bool" where
  "fs_grows w w' \<longleftrightarrow> (\<forall>p. fs w p \<noteq> None \<longrightarrow> fs w' p = fs w p)"

text \<open>Requests are only appended.\<close>

definition req_ext :: "world \<Rightarrow> world \<Rightarrow> bool" where
  "req_ext w w' \<longleftrightarrow> (\<exists>rs. requests w' = requests w @ rs)"

text \<open>The console lines of lines 116--118 for the problems shown.\<close>

fun sample_events :: "exam_problem list \<Rightarrow> event list" where
  "sample_events [] = []"
| "sample_events (p # ps) =
     EvSampleQuestion (number p) (take 30 (question p)) # EvSampleAnswer (answer p) # sample_events ps"


subsection \<open>An example run\<close>

text \<open>
  One PDF in \<open>./pdfs\<close>, the output directory \<open>./json\<close> already made, a service that answers with a well-formed exam set, and a
  variant whose \<open>source\<close> field holds a lone surrogate.
\<close>

definition ex_problem :: "ustr \<Rightarrow> exam_problem" where
  "ex_problem src =
     \<lparr>year = 111, exam_number = U ''1'', source = src, number = 1, subject = Process,
      question = U ''Q'', options = \<lparr>opt_A = U ''a'', opt_B = U ''b'', opt_C = U ''c'', opt_D = U ''d''\<rparr>,
      answer = U ''A''\<rparr>"

definition ex_set :: "ustr \<Rightarrow> exam_set" where
  "ex_set src = \<lparr>problems = [ex_problem src]\<rparr>"

definition ex_env :: "ustr \<Rightarrow> env" where
  "ex_env src =
     \<lparr>svc = (\<lambda>_ _. RemoteText (Some (model_dump_json (dump_exam_set (ex_set src))))),
      client_ok = True, pdf_listing = [U ''a.pdf'']\<rparr>"

definition ex_path :: ustr where
  "ex_path = input_path (U ''a.pdf'')"

definition ex_world :: world where
  "ex_world =
     \<lparr>fs = [IN_DIR \<mapsto> Dir, OUT_DIR \<mapsto> Dir, ex_path \<mapsto> File [37, 80, 68, 70]],
      console = [], requests = []\<rparr>"

subsection \<open>Statements and their effects\<close>

named_theorems frame_rules "how each statement form passes on a relation between worlds"

lemma act_ret_Inr [simp]: "act_ret a w = Inr (a, w)"
  by (simp add: act_ret_def)

lemma act_raise_Inl [simp]: "act_raise e w = Inl (e, w)"
  by (simp add: act_raise_def)

lemma act_bind_Inr [simp]: "m w = Inr (a, w') \<Longrightarrow> act_bind m k w = k a w'"
  by (simp add: act_bind_def)

lemma act_bind_Inl [simp]: "m w = Inl ew \<Longrightarrow> act_bind m k w = Inl ew"
  by (simp add: act_bind_def)

lemma act_try_Inr [simp]: "m w = Inr r \<Longrightarrow> act_try m h w = Inr r"
  by (simp add: act_try_def)

lemma act_try_Inl [simp]: "m w = Inl (e, w') \<Longrightarrow> act_try m h w = h e w'"
  by (simp add: act_try_def)

lemma act_bind_frame:
  assumes "transp R" "\<And>w. R w (wof (m w))" "\<And>a w. R w (wof (k a w))"
  shows "R w (wof (act_bind m k w))"
proof (cases "m w")
  case (Inl ew)
  then show ?thesis using assms(2) [of w] by (cases ew) simp
next
  case (Inr aw)
  then obtain a w' where "m w = Inr (a, w')" by (cases aw) auto
  then show ?thesis
    using assms(1) assms(2) [of w] assms(3) [where a = a and w = w'] by (simp add: transp_def)
qed

lemma act_try_frame:
  assumes "transp R" "\<And>w. R w (wof (m w))" "\<And>e w. R w (wof (h e w))"
  shows "R w (wof (act_try m h w))"
proof (cases "m w")
  case (Inl ew)
  then obtain e w' where "m w = Inl (e, w')" by (cases ew) auto
  then show ?thesis
    using assms(1) assms(2) [of w] assms(3) [where e = e and w = w'] by (simp add: transp_def)
next
  case (Inr aw)
  then show ?thesis using assms(2) [of w] by simp
qed

lemma act_if_frame:
  "transp R \<Longrightarrow> R w (wof (m1 w)) \<Longrightarrow> R w (wof (m2 w)) \<Longrightarrow> R w (wof ((if b then m1 else m2) w))"
  by simp

lemma act_ret_frame: "reflp R \<Longrightarrow> R w (wof (act_ret a w))"
  by (simp add: reflp_def)

lemma act_raise_frame: "reflp R \<Longrightarrow> R w (wof (act_raise e w))"
  by (simp add: reflp_def)

lemma transp_fs_within: "transp (fs_within S)"
  by (auto simp: transp_def fs_within_def)

lemma reflp_fs_within: "reflp (fs_within S)"
  by (simp add: reflp_def fs_within_def)

lemma transp_fs_grows: "transp fs_grows"
  by (auto simp: transp_def fs_grows_def)

lemma reflp_fs_grows: "reflp fs_grows"
  by (simp add: reflp_def fs_grows_def)

lemma transp_req_ext: "transp req_ext"
  by (auto simp: transp_def req_ext_def)

lemma reflp_req_ext: "reflp req_ext"
  by (auto simp: reflp_def req_ext_def intro: exI [of _ "[]"])

lemma transp_eq_fs: "transp (\<lambda>w w'. fs w' = fs w)"
  by (simp add: transp_def)

lemma reflp_eq_fs: "reflp (\<lambda>w w'. fs w' = fs w)"
  by (simp add: reflp_def)

lemma transp_eq_req: "transp (\<lambda>w w'. requests w' = requests w)"
  by (simp add: transp_def)

lemma reflp_eq_req: "reflp (\<lambda>w w'. requests w' = requests w)"
  by (simp add: reflp_def)

lemmas frame_within [frame_rules] =
  act_bind_frame [OF transp_fs_within] act_try_frame [OF transp_fs_within]
  act_if_frame [OF transp_fs_within] act_ret_frame [OF reflp_fs_within] act_raise_frame [OF reflp_fs_within]

lemmas frame_grows [frame_rules] =
  act_bind_frame [OF transp_fs_grows] act_try_frame [OF transp_fs_grows]
  act_if_frame [OF transp_fs_grows] act_ret_frame [OF reflp_fs_grows] act_raise_frame [OF reflp_fs_grows]

lemmas frame_req [frame_rules] =
  act_bind_frame [OF transp_req_ext] act_try_frame [OF transp_req_ext]
  act_if_frame [OF transp_req_ext] act_ret_frame [OF reflp_req_ext] act_raise_frame [OF reflp_req_ext]

lemmas frame_fs [frame_rules] =
  act_bind_frame [OF transp_eq_fs] act_try_frame [OF transp_eq_fs]
  act_if_frame [OF transp_eq_fs] act_ret_frame [OF reflp_eq_fs] act_raise_frame [OF reflp_eq_fs]

lemmas frame_rq [frame_rules] =
  act_bind_frame [OF transp_eq_req] act_try_frame [OF transp_eq_req]
  act_if_frame [OF transp_eq_req] act_ret_frame [OF reflp_eq_req] act_raise_frame [OF reflp_eq_req]

lemma fs_within_same [simp]: "fs w' = fs w \<Longrightarrow> fs_within S w w'"
  by (simp add: fs_within_def)

lemma fs_grows_same [simp]: "fs w' = fs w \<Longrightarrow> fs_grows w w'"
  by (simp add: fs_grows_def)

lemma req_ext_same [simp]: "requests w' = requests w \<Longrightarrow> req_ext w w'"
  by (simp add: req_ext_def)

lemma py_print_fs [simp]: "fs (wof (py_print ev w)) = fs w"
  by (simp add: py_print_def)

lemma py_print_requests [simp]: "requests (wof (py_print ev w)) = requests w"
  by (simp add: py_print_def)

lemma path_exists_world [simp]: "wof (path_exists p w) = w"
  by (simp add: path_exists_def)

lemma genai_client_world [simp]: "wof (genai_client env w) = w"
  by (simp add: genai_client_def)

lemma read_bytes_world [simp]: "wof (read_bytes p w) = w"
  by (simp add: read_bytes_def split: option.split fentry.split)

lemma loads_act_world [simp]: "wof (loads_act t w) = w"
  by (simp add: loads_act_def split: option.split)

lemma validate_act_world [simp]: "wof (validate_act v w) = w"
  by (simp add: validate_act_def split: sum.split)

lemma generate_content_fs [simp]: "fs (wof (generate_content env r w)) = fs w"
  by (simp add: generate_content_def Let_def split: remote_result.split)

lemma generate_content_req_ext [simp]: "req_ext w (wof (generate_content env r w))"
  by (simp add: generate_content_def Let_def req_ext_def split: remote_result.split)

lemma open_write_fs_within [simp]: "p \<in> S \<Longrightarrow> fs_within S w (wof (open_write p w))"
  by (simp add: open_write_def fs_within_def)

lemma write_text_fs_within [simp]: "p \<in> S \<Longrightarrow> fs_within S w (wof (write_text p t w))"
  by (simp add: write_text_def fs_within_def split: option.split)

lemma open_write_requests [simp]: "requests (wof (open_write p w)) = requests w"
  by (simp add: open_write_def)

lemma write_text_requests [simp]: "requests (wof (write_text p t w)) = requests w"
  by (simp add: write_text_def split: option.split)

lemma print_samples_world:
  "fs (wof (print_samples ps w)) = fs w \<and> requests (wof (print_samples ps w)) = requests w"
proof (induction ps arbitrary: w)
  case Nil
  then show ?case by simp
next
  case (Cons p ps)
  show ?case
    using Cons.IH
    by (simp add: act_bind_def py_print_def split: sum.split)
qed

lemma print_samples_fs [simp]: "fs (wof (print_samples ps w)) = fs w"
  using print_samples_world by blast

lemma print_samples_requests [simp]: "requests (wof (print_samples ps w)) = requests w"
  using print_samples_world by blast

lemma inner_handler_world:
  "fs (wof (inner_handler t e w)) = fs w \<and> requests (wof (inner_handler t e w)) = requests w"
  by (simp add: inner_handler_def act_bind_def py_print_def split: exc.split)

lemma parse_and_save_within:
  "fs_within {output_filepath fp} w (wof (parse_and_save fp t w))"
  unfolding parse_and_save_def
  by (rule frame_rules | simp)+

lemma parse_and_save_requests:
  "requests (wof (parse_and_save fp t w)) = requests w"
  unfolding parse_and_save_def
  by (rule frame_rules | simp)+

lemma inner_handler_fs [simp]: "fs (wof (inner_handler t e w)) = fs w"
  using inner_handler_world by blast

lemma inner_handler_requests [simp]: "requests (wof (inner_handler t e w)) = requests w"
  using inner_handler_world by blast

lemma extract_body_within: "fs_within {output_filepath fp} w (wof (extract_body env fp w))"
  unfolding extract_body_def
  by (rule frame_rules | simp add: parse_and_save_within)+

lemma extract_body_req: "req_ext w (wof (extract_body env fp w))"
  unfolding extract_body_def
  by (rule frame_rules | simp add: parse_and_save_requests)+

lemma fs_within_grows: "fs_within {p} w w' \<Longrightarrow> fs w p = None \<Longrightarrow> fs_grows w w'"
  unfolding fs_within_def fs_grows_def by (metis singletonD)

lemma extract_within: "fs_within {output_filepath fp} w (wof (extract_exams_from_pdf env fp w))"
  unfolding extract_exams_from_pdf_def
  by (rule frame_rules | simp add: extract_body_within)+

lemma extract_grows: "fs_grows w (wof (extract_exams_from_pdf env fp w))"
proof (cases "fs w (output_filepath fp) = None")
  case True
  then show ?thesis by (rule fs_within_grows [OF extract_within])
next
  case False
  then show ?thesis
    by (simp add: extract_exams_from_pdf_def path_exists_def act_bind_def py_print_def)
qed

lemma extract_req: "req_ext w (wof (extract_exams_from_pdf env fp w))"
  unfolding extract_exams_from_pdf_def
  by (rule frame_rules | simp add: extract_body_req)+

lemma py_print_ok [simp]: "printable ev \<Longrightarrow> py_print ev w = Inr ((), w\<lparr>console := console w @ [ev]\<rparr>)"
  by (simp add: py_print_def)

lemma py_print_fail [simp]: "\<not> printable ev \<Longrightarrow> py_print ev w = Inl (UnicodeEncodeError, w)"
  by (simp add: py_print_def)

lemma printable_simps [simp]:
  "printable EvRequesting" "printable (EvParsed k)" "printable (EvError e)"
  "printable (EvValidationFailed errs)"
  "printable (EvSaved q) \<longleftrightarrow> encodable q"
  "printable (EvNotFound p) \<longleftrightarrow> encodable p"
  "printable (EvSkipExisting p) \<longleftrightarrow> encodable p"
  "printable (EvProgress i k p) \<longleftrightarrow> encodable p"
  by (simp_all add: printable_def)

lemma print_samples_ok:
  "list_all printable (sample_events ps) \<Longrightarrow>
   print_samples ps w = Inr ((), w\<lparr>console := console w @ sample_events ps\<rparr>)"
  by (induction ps arbitrary: w) (auto simp: act_bind_def)

lemma act_try_fs:
  "(\<And>e w. fs (wof (h e w)) = fs w) \<Longrightarrow> fs (wof (act_try m h w)) = fs (wof (m w))"
  by (auto simp: act_try_def split: sum.split)

lemma parse_and_save_writes:
  "fs (wof (parse_and_save fp t w)) \<noteq> fs w \<Longrightarrow>
   \<exists>s v es. t = Some s \<and> json_loads s = Some v \<and> model_validate v = Inr es"
  by (auto simp: parse_and_save_def loads_act_def validate_act_def act_bind_def
           split: option.splits sum.splits)

lemma extract_body_writes:
  "fs (wof (extract_body env fp w)) \<noteq> fs w \<Longrightarrow>
   \<exists>pdf s v es. fs w fp = Some (File pdf) \<and>
     svc env (length (requests w)) (gemini_request fp pdf) = RemoteText (Some s) \<and>
     json_loads s = Some v \<and> model_validate v = Inr es"
  apply (auto simp: extract_body_def read_bytes_def act_bind_def generate_content_def Let_def act_try_fs
           split: option.splits fentry.splits remote_result.splits sum.splits)
  subgoal for pdf t
    using parse_and_save_writes [of fp t "w\<lparr>console := console w @ [EvRequesting],
      requests := requests w @ [gemini_request fp pdf]\<rparr>"] by simp
  done


lemma print_handler_fs [simp]:
  "fs (wof (act_bind (py_print ev) (\<lambda>_. act_ret r) w)) = fs w"
  by (simp add: act_bind_def py_print_def)

lemma print_samples_Inr:
  "print_samples ps w = Inr (x, w') \<Longrightarrow> fs w' = fs w \<and> requests w' = requests w"
  using print_samples_world [of ps w] by simp

lemma parse_and_save_Some:
  assumes "parse_and_save fp t w = Inr (Some es, w')"
  shows "\<exists>s v b. t = Some s \<and> json_loads s = Some v \<and> model_validate v = Inr es \<and>
     utf8_encode (model_dump_json (dump_exam_set es)) = Some b \<and>
     fs w' = (fs w)(output_filepath fp \<mapsto> File b) \<and> requests w' = requests w"
  using assms
  by (auto simp: parse_and_save_def loads_act_def validate_act_def act_bind_def py_print_def
        open_write_def write_text_def dest!: print_samples_Inr
        split: option.splits sum.splits if_splits prod.splits)

lemma extract_Some:
  assumes "extract_exams_from_pdf env fp w = Inr (Some es, w')"
  shows "\<exists>pdf t v b. fs w fp = Some (File pdf) \<and> fs w (output_filepath fp) = None \<and>
     svc env (length (requests w)) (gemini_request fp pdf) = RemoteText (Some t) \<and>
     json_loads t = Some v \<and> model_validate v = Inr es \<and>
     utf8_encode (model_dump_json (dump_exam_set es)) = Some b \<and>
     fs w' = (fs w)(output_filepath fp \<mapsto> File b) \<and>
     requests w' = requests w @ [gemini_request fp pdf]"
  using assms
  by (auto simp: extract_exams_from_pdf_def path_exists_def genai_client_def extract_body_def
        read_bytes_def generate_content_def Let_def act_bind_def act_try_def py_print_def
        inner_handler_def dest!: parse_and_save_Some
        split: option.splits sum.splits if_splits prod.splits fentry.splits remote_result.splits exc.splits)

lemma encodable_iff: "encodable s \<longleftrightarrow> (\<forall>c\<in>set s. \<not> is_surrogate c \<and> c < 1114112)"
  by (simp add: encodable_def list_all_iff)

lemma set_basename: "set (basename p) \<subseteq> set p"
  by (simp add: basename_def set_drop_subset)

lemma set_splitext_fst: "set (fst (splitext p)) \<subseteq> set p"
  by (auto simp: splitext_def Let_def dest: in_set_takeD)

lemma set_output_filepath:
  "set (output_filepath fp) \<subseteq> set OUT_DIR \<union> {47} \<union> set fp \<union> set out_suffix"
  using set_splitext_fst [of "basename fp"] set_basename [of fp]
  by (auto simp: output_filepath_def output_filename_def path_join_def)

lemma encodable_output_filepath: "encodable fp \<Longrightarrow> encodable (output_filepath fp)"
  using set_output_filepath [of fp]
  by (auto simp: encodable_iff OUT_DIR_def out_suffix_def is_surrogate_def)

lemma encodable_output_filename: "encodable fp \<Longrightarrow> encodable (output_filename fp)"
  using set_splitext_fst [of "basename fp"] set_basename [of fp]
  by (auto simp: encodable_iff output_filename_def out_suffix_def is_surrogate_def)

lemma extract_no_raise:
  assumes "client_ok env" "encodable fp"
  shows "\<exists>r w'. extract_exams_from_pdf env fp w = Inr (r, w')"
  using assms encodable_output_filepath [OF assms(2)]
  by (auto simp: extract_exams_from_pdf_def path_exists_def genai_client_def act_bind_def
        act_try_def split: sum.splits prod.splits)

lemma fs_within_mono: "fs_within A w w' \<Longrightarrow> A \<subseteq> B \<Longrightarrow> fs_within B w w'"
  by (auto simp: fs_within_def)

lemma extract_within_set:
  "output_filepath fp \<in> S \<Longrightarrow> fs_within S w (wof (extract_exams_from_pdf env fp w))"
  using fs_within_mono [OF extract_within] by blast

lemma batch_grows: "fs_grows w (wof (batch_loop env n i files w))"
  by (induction files arbitrary: i w) (simp; (rule frame_rules | simp add: extract_grows)+)+

lemma batch_within:
  "set files \<subseteq> F \<Longrightarrow>
   fs_within ((\<lambda>f. output_filepath (input_path f)) ` F) w (wof (batch_loop env n i files w))"
  by (induction files arbitrary: i w) (simp; (rule frame_rules | simp add: extract_within_set)+)+

lemma act_try_requests:
  "(\<And>e w. requests (wof (h e w)) = requests w) \<Longrightarrow> requests (wof (act_try m h w)) = requests (wof (m w))"
  by (auto simp: act_try_def split: sum.split)

lemma extract_body_one_request:
  "requests (wof (extract_body env fp w)) = requests w \<or>
   (\<exists>pdf. fs w fp = Some (File pdf) \<and>
      requests (wof (extract_body env fp w)) = requests w @ [gemini_request fp pdf])"
  by (auto simp: extract_body_def read_bytes_def act_bind_def generate_content_def Let_def
        act_try_requests parse_and_save_requests split: option.splits fentry.splits remote_result.splits sum.splits)

lemma extract_one_request:
  "length (requests (wof (extract_exams_from_pdf env fp w))) \<le> Suc (length (requests w))"
  using extract_body_one_request [of env fp w]
  by (auto simp: extract_exams_from_pdf_def path_exists_def genai_client_def act_bind_def
        act_try_requests py_print_def)

lemma main_block_run:
  "fs w OUT_DIR = None \<or> fs w OUT_DIR = Some Dir \<Longrightarrow> fs w IN_DIR = Some Dir \<Longrightarrow>
   main_block env w =
     batch_loop env (length (pdf_listing env)) 0 (pdf_listing env) (w\<lparr>fs := (fs w)(OUT_DIR \<mapsto> Dir)\<rparr>)"
  by (auto simp: main_block_def makedirs_def act_bind_def listdir_def IN_DIR_def OUT_DIR_def fun_upd_idem)

text \<open>The run of the extractor on a reply that decodes and validates, on every branch of the write.\<close>

lemma extract_validated_run:
  assumes "fs w fp = Some (File pdf)" "fs w (output_filepath fp) = None" "client_ok env"
    and "svc env (length (requests w)) (gemini_request fp pdf) = RemoteText (Some t)"
    and "json_loads t = Some v" "model_validate v = Inr es"
    and "list_all printable (sample_events (take 2 (problems es)))"
  shows "extract_exams_from_pdf env fp w =
    (let w1 = w\<lparr>console := console w @ [EvRequesting, EvParsed (length (problems es))] @
                             sample_events (take 2 (problems es)),
                requests := requests w @ [gemini_request fp pdf]\<rparr>
     in case utf8_encode (model_dump_json (dump_exam_set es)) of
          None \<Rightarrow> Inr (None, w1\<lparr>fs := (fs w)(output_filepath fp \<mapsto> File []),
                                console := console w1 @ [EvError UnicodeEncodeError]\<rparr>)
        | Some b \<Rightarrow>
            if encodable (output_filename fp)
            then Inr (Some es, w1\<lparr>fs := (fs w)(output_filepath fp \<mapsto> File b),
                                  console := console w1 @ [EvSaved (output_filename fp)]\<rparr>)
            else Inr (None, w1\<lparr>fs := (fs w)(output_filepath fp \<mapsto> File b),
                                console := console w1 @ [EvError UnicodeEncodeError]\<rparr>))"
proof (cases "utf8_encode (model_dump_json (dump_exam_set es))")
  case None
  then show ?thesis
    using assms
    by (simp add: extract_exams_from_pdf_def path_exists_def genai_client_def extract_body_def
      read_bytes_def generate_content_def Let_def parse_and_save_def loads_act_def validate_act_def
      print_samples_ok open_write_def write_text_def act_bind_def act_try_def inner_handler_def)
next
  case (Some b)
  then show ?thesis
    using assms
    by (cases "encodable (output_filename fp)")
      (simp_all add: extract_exams_from_pdf_def path_exists_def genai_client_def extract_body_def
      read_bytes_def generate_content_def Let_def parse_and_save_def loads_act_def validate_act_def
      print_samples_ok open_write_def write_text_def act_bind_def act_try_def inner_handler_def)
qed

subsection \<open>The example run\<close>

lemma ex_path_file: "fs ex_world ex_path = Some (File [37, 80, 68, 70])"
  by (simp add: ex_world_def ex_path_def input_path_def IN_DIR_def OUT_DIR_def)

lemma ex_in_dir: "fs ex_world IN_DIR = Some Dir"
  by (simp add: ex_world_def ex_path_def input_path_def IN_DIR_def OUT_DIR_def)

lemma ex_output_path: "output_filepath ex_path = U ''./json/a_structured_output.json''"
  by (simp add: ex_path_def input_path_def IN_DIR_def output_filepath_def output_filename_def
      basename_def rfind_def splitext_def slice_def out_suffix_def path_join_def OUT_DIR_def)

lemma ex_output_name: "output_filename ex_path = U ''a_structured_output.json''"
  by (simp add: ex_path_def input_path_def IN_DIR_def output_filename_def
      basename_def rfind_def splitext_def slice_def out_suffix_def)

lemma ex_output_absent: "fs ex_world (output_filepath ex_path) = None"
  unfolding ex_output_path ex_world_def by (simp add: ex_path_def input_path_def IN_DIR_def OUT_DIR_def)

lemma ex_name_encodable: "encodable (output_filename ex_path)"
  by (simp add: ex_output_name encodable_def is_surrogate_def)

lemma ex_samples: "list_all printable (sample_events (take 2 (problems (ex_set src))))"
  by (simp add: ex_set_def ex_problem_def printable_def encodable_def is_surrogate_def)

lemma ex_str_chars:
  "encodable (str_chars (dump_exam_set (ex_set src))) \<longleftrightarrow> encodable src"
  by (simp add: ex_set_def ex_problem_def dump_exam_set_def dump_problem_def dump_options_def
      subject_str_def encodable_def is_surrogate_def)

lemma ex_dump_encodable:
  "utf8_encode (model_dump_json (dump_exam_set (ex_set (U ''a.pdf'')))) \<noteq> None"
  unfolding utf8_encode_Some_iff model_dump_json_def encodable_dump ex_str_chars
  by (simp add: encodable_def is_surrogate_def)

lemma ex_dump_surrogate: "utf8_encode (model_dump_json (dump_exam_set (ex_set [55296]))) = None"
  using utf8_encode_Some_iff [of "model_dump_json (dump_exam_set (ex_set [55296]))"]
  unfolding model_dump_json_def encodable_dump ex_str_chars
  by (simp add: encodable_def is_surrogate_def)

lemma ex_input_encodable: "list_all (\<lambda>f. encodable (input_path f)) [U ''a.pdf'']"
  by (simp add: input_path_def IN_DIR_def encodable_def is_surrogate_def)

lemma ex_outputs: "(\<lambda>f. output_filepath (input_path f)) ` set [U ''a.pdf''] = {output_filepath ex_path}"
  by (simp add: ex_path_def)

lemma ex_reply:
  "svc (ex_env src) k r = RemoteText (Some (model_dump_json (dump_exam_set (ex_set src))))"
  "client_ok (ex_env src)"
  "json_loads (model_dump_json (dump_exam_set (ex_set src))) = Some (dump_exam_set (ex_set src))"
  "model_validate (dump_exam_set (ex_set src)) = Inr (ex_set src)"
  by (simp_all add: ex_env_def model_dump_json_def json_loads_dump dump_ok_exam_set model_validate_dump)

lemma ex_saved:
  obtains b w' where "utf8_encode (model_dump_json (dump_exam_set (ex_set (U ''a.pdf'')))) = Some b"
    and "extract_exams_from_pdf (ex_env (U ''a.pdf'')) ex_path ex_world = Inr (Some (ex_set (U ''a.pdf'')), w')"
    and "fs w' (output_filepath ex_path) = Some (File b)"
proof -
  obtain b where b: "utf8_encode (model_dump_json (dump_exam_set (ex_set (U ''a.pdf'')))) = Some b"
    using ex_dump_encodable by blast
  show ?thesis
    using that [OF b] extract_validated_run [OF ex_path_file ex_output_absent ex_reply(2) ex_reply(1)
        ex_reply(3) ex_reply(4) ex_samples] b ex_name_encodable
    by (simp add: Let_def)
qed

subsection \<open>Properties\<close>

text \<open>
  C1: When the input exists, no output exists yet, the client can be built, and the
  service's reply decodes and validates to \<open>es\<close>, the extractor prints the
  progress lines and the first two problems, writes exactly the UTF-8 encoding of
  \<open>es\<close>'s JSON dump to the output path, sends one request, and returns \<open>es\<close>.
\<close>

theorem extract_saves_validated:
  assumes "fs w fp = Some (File pdf)" "fs w (output_filepath fp) = None" "client_ok env"
    and "svc env (length (requests w)) (gemini_request fp pdf) = RemoteText (Some t)"
    and "json_loads t = Some v" "model_validate v = Inr es"
    and "list_all printable (sample_events (take 2 (problems es)))"
    and "encodable (output_filename fp)"
    and "utf8_encode (model_dump_json (dump_exam_set es)) = Some b"
  shows "extract_exams_from_pdf env fp w =
    Inr (Some es, w\<lparr>fs := (fs w)(output_filepath fp \<mapsto> File b),
                   console := console w @ [EvRequesting, EvParsed (length (problems es))] @
                              sample_events (take 2 (problems es)) @ [EvSaved (output_filename fp)],
                   requests := requests w @ [gemini_request fp pdf]\<rparr>)"
  using extract_validated_run [OF assms(1-7)] assms(8,9) by (simp add: Let_def)

theorem extract_saves_validated_witness:
  "\<exists>b w'. extract_exams_from_pdf (ex_env (U ''a.pdf'')) ex_path ex_world =
     Inr (Some (ex_set (U ''a.pdf'')), w') \<and> fs w' (output_filepath ex_path) = Some (File b)"
proof -
  obtain b where b: "utf8_encode (model_dump_json (dump_exam_set (ex_set (U ''a.pdf'')))) = Some b"
    using ex_dump_encodable by blast
  show ?thesis
    using extract_saves_validated [OF ex_path_file ex_output_absent ex_reply(2) ex_reply(1) ex_reply(3)
        ex_reply(4) ex_samples ex_name_encodable b]
    by simp
qed

text \<open>
  C3: The extractor never modifies or removes an entry of the file system that existed
  when it was called.
\<close>

theorem extract_keeps_existing:
  "fs w p \<noteq> None \<Longrightarrow> fs (wof (extract_exams_from_pdf env fp w)) p = fs w p"
  using extract_grows [of w env fp] by (simp add: fs_grows_def)

theorem extract_keeps_existing_witness:
  "fs ex_world IN_DIR \<noteq> None \<and>
   fs (wof (extract_exams_from_pdf (ex_env (U ''a.pdf'')) ex_path ex_world)) IN_DIR = fs ex_world IN_DIR"
proof -
  have h: "fs ex_world IN_DIR \<noteq> None" using ex_in_dir by simp
  show ?thesis using h extract_keeps_existing [OF h] by blast
qed

text \<open>
  C4: The extractor changes no path of the file system other than its output path.
\<close>

theorem extract_writes_only_output:
  "p \<noteq> output_filepath fp \<Longrightarrow> fs (wof (extract_exams_from_pdf env fp w)) p = fs w p"
  using extract_within [of fp w env] by (simp add: fs_within_def)

theorem extract_writes_only_output_witness:
  "IN_DIR \<noteq> output_filepath ex_path \<and>
   fs (wof (extract_exams_from_pdf (ex_env (U ''a.pdf'')) ex_path ex_world)) IN_DIR = fs ex_world IN_DIR"
proof -
  have h: "IN_DIR \<noteq> output_filepath ex_path" by (simp add: ex_output_path IN_DIR_def)
  show ?thesis using h extract_writes_only_output [OF h] by blast
qed

text \<open>
  C5: The extractor changes the file system only after the service's reply has been
  decoded as JSON and validated against the schema.
\<close>

theorem extract_no_unvalidated_write:
  "fs (wof (extract_exams_from_pdf env fp w)) \<noteq> fs w \<Longrightarrow>
   \<exists>pdf s v es. fs w fp = Some (File pdf) \<and>
     svc env (length (requests w)) (gemini_request fp pdf) = RemoteText (Some s) \<and>
     json_loads s = Some v \<and> model_validate v = Inr es"
  by (auto simp: extract_exams_from_pdf_def path_exists_def genai_client_def act_bind_def act_try_fs py_print_def
           dest!: extract_body_writes split: if_splits)

theorem extract_no_unvalidated_write_witness:
  "fs (wof (extract_exams_from_pdf (ex_env (U ''a.pdf'')) ex_path ex_world)) \<noteq> fs ex_world \<and>
   (\<exists>pdf s v es. fs ex_world ex_path = Some (File pdf) \<and>
     svc (ex_env (U ''a.pdf'')) (length (requests ex_world)) (gemini_request ex_path pdf) = RemoteText (Some s) \<and>
     json_loads s = Some v \<and> model_validate v = Inr es)"
proof -
  obtain b w' where "extract_exams_from_pdf (ex_env (U ''a.pdf'')) ex_path ex_world =
      Inr (Some (ex_set (U ''a.pdf'')), w')" "fs w' (output_filepath ex_path) = Some (File b)"
    by (rule ex_saved)
  then have ne: "fs (wof (extract_exams_from_pdf (ex_env (U ''a.pdf'')) ex_path ex_world)) \<noteq> fs ex_world"
    using ex_output_absent by auto
  show ?thesis using ne extract_no_unvalidated_write [OF ne] by blast
qed

text \<open>
  C6: When the output file already exists, the extractor only prints the skip line:
  no request is sent and the file system is unchanged.
\<close>

theorem extract_skips_existing:
  assumes "fs w fp \<noteq> None" "fs w (output_filepath fp) \<noteq> None"
  shows "extract_exams_from_pdf env fp w =
    (if encodable (output_filepath fp)
     then Inr (None, w\<lparr>console := console w @ [EvSkipExisting (output_filepath fp)]\<rparr>)
     else Inl (UnicodeEncodeError, w))"
  using assms by (simp add: extract_exams_from_pdf_def path_exists_def act_bind_def)

theorem extract_skips_existing_witness:
  "fs (ex_world\<lparr>fs := (fs ex_world)(output_filepath ex_path \<mapsto> File [])\<rparr>) ex_path \<noteq> None \<and>
   fs (ex_world\<lparr>fs := (fs ex_world)(output_filepath ex_path \<mapsto> File [])\<rparr>) (output_filepath ex_path) \<noteq> None \<and>
   extract_exams_from_pdf (ex_env (U ''a.pdf'')) ex_path
     (ex_world\<lparr>fs := (fs ex_world)(output_filepath ex_path \<mapsto> File [])\<rparr>) =
   (if encodable (output_filepath ex_path)
    then Inr (None, ex_world\<lparr>fs := (fs ex_world)(output_filepath ex_path \<mapsto> File []),
                             console := [EvSkipExisting (output_filepath ex_path)]\<rparr>)
    else Inl (UnicodeEncodeError, ex_world\<lparr>fs := (fs ex_world)(output_filepath ex_path \<mapsto> File [])\<rparr>))"
proof -
  have ne: "ex_path \<noteq> output_filepath ex_path"
    unfolding ex_output_path by (simp add: ex_path_def input_path_def IN_DIR_def)
  let ?w = "ex_world\<lparr>fs := (fs ex_world)(output_filepath ex_path \<mapsto> File [])\<rparr>"
  have h: "fs ?w ex_path \<noteq> None" "fs ?w (output_filepath ex_path) \<noteq> None"
    using ne ex_path_file by simp_all
  show ?thesis using h extract_skips_existing [OF h, of "ex_env (U ''a.pdf'')"]
    by (simp add: ex_world_def)
qed

text \<open>
  C7: When a validated exam set cannot be encoded as UTF-8 (a lone surrogate in a string),
  the output file is left created and empty: \<open>open(..., 'w')\<close> runs before the
  failing write, and the error is only printed.
\<close>

theorem extract_unencodable_output_leaves_empty_file:
  assumes "fs w fp = Some (File pdf)" "fs w (output_filepath fp) = None" "client_ok env"
    and "svc env (length (requests w)) (gemini_request fp pdf) = RemoteText (Some t)"
    and "json_loads t = Some v" "model_validate v = Inr es"
    and "list_all printable (sample_events (take 2 (problems es)))"
    and "utf8_encode (model_dump_json (dump_exam_set es)) = None"
  shows "extract_exams_from_pdf env fp w =
    Inr (None, w\<lparr>fs := (fs w)(output_filepath fp \<mapsto> File []),
                 console := console w @ [EvRequesting, EvParsed (length (problems es))] @
                            sample_events (take 2 (problems es)) @ [EvError UnicodeEncodeError],
                 requests := requests w @ [gemini_request fp pdf]\<rparr>)"
  using extract_validated_run [OF assms(1-7)] assms(8) by (simp add: Let_def)

theorem extract_unencodable_output_leaves_empty_file_witness:
  "\<exists>w'. extract_exams_from_pdf (ex_env [55296]) ex_path ex_world = Inr (None, w') \<and>
     fs w' (output_filepath ex_path) = Some (File [])"
  using extract_unencodable_output_leaves_empty_file [OF ex_path_file ex_output_absent ex_reply(2)
      ex_reply(1) ex_reply(3) ex_reply(4) ex_samples ex_dump_surrogate]
  by simp

text \<open>
  C8: With a usable client and printable paths, the batch loop processes every listed
  file: no failure of one file ends the run.
\<close>

theorem batch_completes:
  "client_ok env \<Longrightarrow> list_all (\<lambda>f. encodable (input_path f)) files \<Longrightarrow>
   \<exists>w'. batch_loop env n i files w = Inr ((), w')"
proof (induction files arbitrary: i w)
  case Nil
  then show ?case by simp
next
  case (Cons f files)
  then obtain r w1 where "extract_exams_from_pdf env (input_path f)
      (w\<lparr>console := console w @ [EvProgress (Suc i) n (input_path f)]\<rparr>) = Inr (r, w1)"
    using extract_no_raise by fastforce
  with Cons show ?case by simp
qed

theorem batch_completes_witness:
  "\<exists>w'. batch_loop (ex_env (U ''a.pdf'')) 1 0 [U ''a.pdf''] ex_world = Inr ((), w')"
  by (rule batch_completes [OF ex_reply(2) ex_input_encodable])

text \<open>
  C9: A batch never modifies or removes an entry that existed before it started.
\<close>

theorem batch_keeps_existing:
  "fs w p \<noteq> None \<Longrightarrow> fs (wof (batch_loop env n i files w)) p = fs w p"
  using batch_grows [of w env n i files] by (simp add: fs_grows_def)

theorem batch_keeps_existing_witness:
  "fs ex_world IN_DIR \<noteq> None \<and>
   fs (wof (batch_loop (ex_env (U ''a.pdf'')) 1 0 [U ''a.pdf''] ex_world)) IN_DIR = fs ex_world IN_DIR"
proof -
  have h: "fs ex_world IN_DIR \<noteq> None" using ex_in_dir by simp
  show ?thesis using h batch_keeps_existing [OF h] by blast
qed

text \<open>
  C10: A batch changes only the output paths of the files it was given.
\<close>

theorem batch_writes_only_outputs:
  "p \<notin> (\<lambda>f. output_filepath (input_path f)) ` set files \<Longrightarrow>
   fs (wof (batch_loop env n i files w)) p = fs w p"
  using batch_within [of files "set files" w env n i] by (simp add: fs_within_def)

theorem batch_writes_only_outputs_witness:
  "IN_DIR \<notin> (\<lambda>f. output_filepath (input_path f)) ` set [U ''a.pdf''] \<and>
   fs (wof (batch_loop (ex_env (U ''a.pdf'')) 1 0 [U ''a.pdf''] ex_world)) IN_DIR = fs ex_world IN_DIR"
proof -
  have h: "IN_DIR \<notin> (\<lambda>f. output_filepath (input_path f)) ` set [U ''a.pdf'']"
    unfolding ex_outputs ex_output_path by (simp add: IN_DIR_def)
  show ?thesis using h batch_writes_only_outputs [OF h] by blast
qed

text \<open>
  C11: The extractor sends at most one request, and only when the input is a file, the
  output is absent and the client was built: the fixed model, the input's bytes and
  the prompt naming the input's base name.
\<close>

theorem extract_request_content:
  "requests (wof (extract_exams_from_pdf env fp w)) = requests w \<or>
   (\<exists>pdf. fs w fp = Some (File pdf) \<and> fs w (output_filepath fp) = None \<and> client_ok env \<and>
      requests (wof (extract_exams_from_pdf env fp w)) = requests w @ [gemini_request fp pdf])"
  using extract_body_one_request [of env fp w]
  by (auto simp: extract_exams_from_pdf_def path_exists_def genai_client_def act_bind_def
        act_try_requests py_print_def)

text \<open>
  C12: A batch sends at most one request per listed file.
\<close>

theorem batch_request_bound:
  "length (requests (wof (batch_loop env n i files w))) \<le> length (requests w) + length files"
proof (induction files arbitrary: i w)
  case Nil
  then show ?case by simp
next
  case (Cons f files)
  show ?case
  proof (cases "encodable (input_path f)")
    case False
    then show ?thesis by (simp add: act_bind_def)
  next
    case True
    define w1 where "w1 = w\<lparr>console := console w @ [EvProgress (Suc i) n (input_path f)]\<rparr>"
    have bind: "batch_loop env n i (f # files) w =
      act_bind (extract_exams_from_pdf env (input_path f)) (\<lambda>_. batch_loop env n (Suc i) files) w1"
      using True by (simp add: w1_def)
    have r1: "length (requests (wof (extract_exams_from_pdf env (input_path f) w1))) \<le> Suc (length (requests w))"
      using extract_one_request [of env "input_path f" w1] by (simp add: w1_def)
    show ?thesis
    proof (cases "extract_exams_from_pdf env (input_path f) w1")
      case (Inl ew)
      then show ?thesis using r1 bind by (cases ew) simp
    next
      case (Inr aw)
      then obtain a w2 where "extract_exams_from_pdf env (input_path f) w1 = Inr (a, w2)"
        by (cases aw) auto
      then show ?thesis using r1 bind Cons.IH [of "Suc i" w2] by simp
    qed
  qed
qed

text \<open>
  C13: Running the extractor again on a file it has saved only prints the skip line.
\<close>

theorem extract_rerun_skips:
  assumes "extract_exams_from_pdf env fp w = Inr (Some es, w')"
  shows "extract_exams_from_pdf env' fp w' =
    (if encodable (output_filepath fp)
     then Inr (None, w'\<lparr>console := console w' @ [EvSkipExisting (output_filepath fp)]\<rparr>)
     else Inl (UnicodeEncodeError, w'))"
proof -
  obtain b where "fs w' (output_filepath fp) = Some (File b)" "fs w' fp \<noteq> None"
    using extract_Some [OF assms] by auto
  then show ?thesis by (simp add: extract_exams_from_pdf_def path_exists_def act_bind_def)
qed

theorem extract_rerun_skips_witness:
  "\<exists>w'. extract_exams_from_pdf (ex_env (U ''a.pdf'')) ex_path ex_world = Inr (Some (ex_set (U ''a.pdf'')), w') \<and>
     extract_exams_from_pdf (ex_env (U ''a.pdf'')) ex_path w' =
       (if encodable (output_filepath ex_path)
        then Inr (None, w'\<lparr>console := console w' @ [EvSkipExisting (output_filepath ex_path)]\<rparr>)
        else Inl (UnicodeEncodeError, w'))"
proof -
  obtain b w' where run: "extract_exams_from_pdf (ex_env (U ''a.pdf'')) ex_path ex_world =
      Inr (Some (ex_set (U ''a.pdf'')), w')"
    by (rule ex_saved)
  show ?thesis using run extract_rerun_skips [OF run] by blast
qed

text \<open>
  C14: When the client cannot be built, the exception leaves the extractor (it is
  outside the \<open>try\<close>), before any request or write.
\<close>

theorem extract_client_failure_raises:
  assumes "fs w fp \<noteq> None" "fs w (output_filepath fp) = None" "\<not> client_ok env"
  shows "extract_exams_from_pdf env fp w = Inl (ClientError, w)"
  using assms by (simp add: extract_exams_from_pdf_def path_exists_def genai_client_def act_bind_def)

theorem extract_client_failure_raises_witness:
  "fs ex_world ex_path \<noteq> None \<and> fs ex_world (output_filepath ex_path) = None \<and>
   \<not> client_ok ((ex_env (U ''a.pdf''))\<lparr>client_ok := False\<rparr>) \<and>
   extract_exams_from_pdf ((ex_env (U ''a.pdf''))\<lparr>client_ok := False\<rparr>) ex_path ex_world =
     Inl (ClientError, ex_world)"
proof -
  have h: "fs ex_world ex_path \<noteq> None" "fs ex_world (output_filepath ex_path) = None"
      "\<not> client_ok ((ex_env (U ''a.pdf''))\<lparr>client_ok := False\<rparr>)"
    using ex_path_file ex_output_absent by simp_all
  show ?thesis using h extract_client_failure_raises [OF h] by blast
qed

text \<open>
  C15: When \<open>./json\<close> is a regular file, \<open>os.makedirs\<close> raises and the script
  stops before processing any input.
\<close>

theorem main_out_dir_is_file:
  "fs w OUT_DIR = Some (File b) \<Longrightarrow> main_block env w = Inl (FileExistsError, w)"
  by (simp add: main_block_def makedirs_def act_bind_def)

theorem main_out_dir_is_file_witness:
  "fs \<lparr>fs = [OUT_DIR \<mapsto> File []], console = [], requests = []\<rparr> OUT_DIR = Some (File []) \<and>
   main_block (ex_env (U ''a.pdf'')) \<lparr>fs = [OUT_DIR \<mapsto> File []], console = [], requests = []\<rparr> =
     Inl (FileExistsError, \<lparr>fs = [OUT_DIR \<mapsto> File []], console = [], requests = []\<rparr>)"
proof -
  have h: "fs \<lparr>fs = [OUT_DIR \<mapsto> File []], console = [], requests = []\<rparr> OUT_DIR = Some (File [])"
    by simp
  show ?thesis using h main_out_dir_is_file [OF h] by blast
qed

end
