(* ===== verification/Inspector.thy ===== *)
theory Inspector
  imports Extractor
begin

text \<open>
  \<open>src/inspect_outputs.py\<close>: for every entry of \<open>./out\<close>, open it in text mode,
  \<open>json.load\<close> it, take the first problem and print the number of problems and a
  key \<open>year-exam_number<TAB>source\<close>. It runs on the same world as the extractor and
  never catches an exception: the first failure ends the run. Subscripts, \<open>len\<close>,
  \<open>str\<close> and \<open>+\<close> follow Python's semantics on the decoded JSON values.
\<close>

definition INSPECT_DIR :: ustr where
  "INSPECT_DIR = U ''./out''"

text \<open>Universal newlines of text mode: \<open>\r\n\<close> and \<open>\r\<close> are read as \<open>\n\<close>.\<close>

fun translate_newlines :: "ustr \<Rightarrow> ustr" where
  "translate_newlines [] = []"
| "translate_newlines [c] = [if c = 13 then 10 else c]"
| "translate_newlines (c # d # s) =
     (if c = 13 \<and> d = 10 then 10 # translate_newlines s
      else (if c = 13 then 10 else c) # translate_newlines (d # s))"

text \<open>
  \<open>open(f)\<close> and \<open>f.read()\<close>: the locale encoding is taken to be UTF-8, decoded
  strictly.
\<close>

definition read_text :: "ustr \<Rightarrow> ustr act" where
  "read_text p w =
     (case fs w p of
        None \<Rightarrow> Inl (FileNotFoundError, w)
      | Some Dir \<Rightarrow> Inl (IsADirectoryError, w)
      | Some (File b) \<Rightarrow>
          (case utf8_decode b of
             None \<Rightarrow> Inl (UnicodeDecodeError, w)
           | Some s \<Rightarrow> Inr (translate_newlines s, w)))"

text \<open>\<open>json.load(f)\<close>.\<close>

definition json_load :: "ustr \<Rightarrow> pyval act" where
  "json_load s = (case json_loads s of None \<Rightarrow> act_raise JSONDecodeError | Some v \<Rightarrow> act_ret v)"

text \<open>\<open>x[k]\<close> for a string key: only a dict has one.\<close>

definition get_key :: "pyval \<Rightarrow> ustr \<Rightarrow> pyval act" where
  "get_key x k =
     (case x of
        PDict kvs \<Rightarrow> (case dict_get kvs k of None \<Rightarrow> act_raise KeyError | Some v \<Rightarrow> act_ret v)
      | _ \<Rightarrow> act_raise TypeError)"

text \<open>\<open>x[0]\<close>: a list's or a string's first item; a dict of JSON has only string keys.\<close>

definition get_first :: "pyval \<Rightarrow> pyval act" where
  "get_first x =
     (case x of
        PList xs \<Rightarrow> (case xs of [] \<Rightarrow> act_raise IndexError | y # _ \<Rightarrow> act_ret y)
      | PStr s \<Rightarrow> (case s of [] \<Rightarrow> act_raise IndexError | c # _ \<Rightarrow> act_ret (PStr [c]))
      | PDict kvs \<Rightarrow> act_raise KeyError
      | _ \<Rightarrow> act_raise TypeError)"

text \<open>\<open>len(x)\<close>.\<close>

definition py_len :: "pyval \<Rightarrow> nat act" where
  "py_len x =
     (case x of
        PList xs \<Rightarrow> act_ret (length xs)
      | PDict kvs \<Rightarrow> act_ret (length kvs)
      | PStr s \<Rightarrow> act_ret (length s)
      | _ \<Rightarrow> act_raise TypeError)"

text \<open>
  \<open>str(x)\<close>. The text of a float, list or dict is \<open>repr\<close>'s, which depends on
  Unicode's printability tables; it is a parameter \<open>repr_other\<close> of the model.
\<close>

definition py_str :: "(pyval \<Rightarrow> ustr) \<Rightarrow> pyval \<Rightarrow> ustr" where
  "py_str repr_other x =
     (case x of
        PInt i \<Rightarrow> show_int i
      | PStr s \<Rightarrow> s
      | PBool b \<Rightarrow> (if b then U ''True'' else U ''False'')
      | PNone \<Rightarrow> U ''None''
      | _ \<Rightarrow> repr_other x)"

text \<open>\<open>a + x\<close> with \<open>a\<close> a string: \<open>x\<close> must be one.\<close>

definition str_concat :: "ustr \<Rightarrow> pyval \<Rightarrow> ustr act" where
  "str_concat a x = (case x of PStr s \<Rightarrow> act_ret (a @ s) | _ \<Rightarrow> act_raise TypeError)"

text \<open>Lines 7--11 for one entry \<open>f\<close> of the listing.\<close>

definition inspect_file :: "(pyval \<Rightarrow> ustr) \<Rightarrow> ustr \<Rightarrow> unit act" where
  "inspect_file repr_other f =
     act_bind (read_text (path_join INSPECT_DIR f)) (\<lambda>text.
     act_bind (json_load text) (\<lambda>obj.
     act_bind (get_key obj (U ''problems'')) (\<lambda>ps.
     act_bind (get_first ps) (\<lambda>p0.
     act_bind (get_key obj (U ''problems'')) (\<lambda>ps'.
     act_bind (py_len ps') (\<lambda>n.
     act_bind (get_key p0 (U ''year'')) (\<lambda>y.
     act_bind (get_key p0 (U ''exam_number'')) (\<lambda>en.
     act_bind (str_concat (py_str repr_other y @ U ''-'') en) (\<lambda>a.
     act_bind (get_key p0 (U ''source'')) (\<lambda>src.
     act_bind (str_concat (a @ [9]) src) (\<lambda>key.
     py_print (EvSummary (show_nat n @ [32] @ key)))))))))))))"

text \<open>Line 6: the entries in listing order; the first exception ends the run.\<close>

fun inspect_loop :: "(pyval \<Rightarrow> ustr) \<Rightarrow> ustr list \<Rightarrow> unit act" where
  "inspect_loop repr_other [] = act_ret ()"
| "inspect_loop repr_other (f # fs') =
     act_bind (inspect_file repr_other f) (\<lambda>_. inspect_loop repr_other fs')"

text \<open>
  The script: \<open>os.listdir('./out')\<close> gives \<open>names\<close> (the platform's listing) when
  \<open>./out\<close> is a directory.
\<close>

definition inspect_outputs :: "(pyval \<Rightarrow> ustr) \<Rightarrow> ustr list \<Rightarrow> unit act" where
  "inspect_outputs repr_other names w =
     (case fs w INSPECT_DIR of
        Some Dir \<Rightarrow> inspect_loop repr_other names w
      | Some (File b) \<Rightarrow> Inl (NotADirectoryError, w)
      | None \<Rightarrow> Inl (FileNotFoundError, w))"

subsection \<open>Lemmas\<close>

lemma translate_newlines_id: "13 \<notin> set s \<Longrightarrow> translate_newlines s = s"
  by (induction s rule: translate_newlines.induct) auto

lemma printable_summary [simp]: "printable (EvSummary t) \<longleftrightarrow> encodable t"
  by (simp add: printable_def)

lemma read_text_saved:
  "fs w p = Some (File b) \<Longrightarrow> utf8_encode t = Some b \<Longrightarrow> 13 \<notin> set t \<Longrightarrow> read_text p w = Inr (t, w)"
  by (simp add: read_text_def utf8_decode_encode translate_newlines_id)

lemma str_chars_problem:
  "set (exam_number p) \<union> set (source p) \<subseteq> set (str_chars (dump_problem p))"
  by (auto simp: dump_problem_def dump_options_def)

lemma str_chars_exam_set:
  "p \<in> set (problems es) \<Longrightarrow> set (str_chars (dump_problem p)) \<subseteq> set (str_chars (dump_exam_set es))"
proof -
  have "set (str_chars_elems xs) = (\<Union>x\<in>set xs. set (str_chars x))" for xs
    by (induction xs) auto
  then show "p \<in> set (problems es) \<Longrightarrow> ?thesis"
    by (auto simp: dump_exam_set_def)
qed

lemma encodable_subset: "encodable s \<Longrightarrow> set t \<subseteq> set s \<Longrightarrow> encodable t"
  by (auto simp: encodable_def list_all_iff)

lemma inspect_file_dump:
  assumes "fs w (path_join INSPECT_DIR f) = Some (File b)"
    and "utf8_encode (model_dump_json (dump_exam_set es)) = Some b"
    and "problems es = p # ps"
  shows "inspect_file r f w =
    Inr ((), w\<lparr>console := console w @
      [EvSummary (show_nat (Suc (length ps)) @ 32 # show_int (year p) @ 45 # exam_number p @ 9 # source p)]\<rparr>)"
proof -
  have enc: "encodable (str_chars (dump_exam_set es))"
    using assms(2) utf8_encode_Some_iff [of "model_dump_json (dump_exam_set es)"]
    by (simp add: model_dump_json_def encodable_dump)
  have "set (exam_number p) \<union> set (source p) \<subseteq> set (str_chars (dump_exam_set es))"
    using str_chars_problem [of p] str_chars_exam_set [of p es] assms(3) by auto
  then have key: "encodable (show_nat (Suc (length ps)) @ 32 # show_int (year p) @ 45 # exam_number p @ 9 # source p)"
    using enc show_nat_digits [of _ "Suc (length ps)"] show_int_no_cr
    by (auto simp: encodable_def list_all_iff is_surrogate_def is_digit_def show_int_def
        dest: show_nat_digits subsetD)
  have rd: "read_text (path_join INSPECT_DIR f) w = Inr (model_dump_json (dump_exam_set es), w)"
    using assms(1,2) by (rule read_text_saved) (simp add: model_dump_json_def dump_no_cr)
  have ld: "json_load (model_dump_json (dump_exam_set es)) w = Inr (dump_exam_set es, w)"
    by (simp add: json_load_def model_dump_json_def json_loads_dump dump_ok_exam_set)
  show ?thesis
    using rd ld key assms(3)
    by (simp add: inspect_file_def dump_exam_set_def get_key_def get_first_def py_len_def
        dump_problem_def py_str_def str_concat_def)
qed

text \<open>
  C25: an empty file in \<open>./out\<close> (what the extractor leaves when the write fails)
  makes \<open>json.load\<close> raise, and the exception ends the inspector.
\<close>

theorem inspect_empty_file_aborts:
  "fs w (path_join INSPECT_DIR f) = Some (File []) \<Longrightarrow> inspect_file r f w = Inl (JSONDecodeError, w)"
  by (simp add: inspect_file_def read_text_def json_load_def json_loads_def)

lemma read_text_world [simp]: "wof (read_text p w) = w"
  by (simp add: read_text_def split: option.split fentry.split)

lemma json_load_world [simp]: "wof (json_load s w) = w"
  by (simp add: json_load_def split: option.split)

lemma get_key_world [simp]: "wof (get_key x k w) = w"
  by (simp add: get_key_def split: pyval.split option.split)

lemma get_first_world [simp]: "wof (get_first x w) = w"
  by (simp add: get_first_def split: pyval.split list.split)

lemma py_len_world [simp]: "wof (py_len x w) = w"
  by (simp add: py_len_def split: pyval.split)

lemma str_concat_world [simp]: "wof (str_concat a x w) = w"
  by (simp add: str_concat_def split: pyval.split)

lemma inspect_file_fs: "fs (wof (inspect_file r f w)) = fs w"
  unfolding inspect_file_def by (rule frame_rules | simp)+

text \<open>C26: the inspector never changes the file system.\<close>

theorem inspector_never_writes: "fs (wof (inspect_outputs r names w)) = fs w"
proof -
  have "fs (wof (inspect_loop r names w)) = fs w" for w
    by (induction names arbitrary: w) (simp; (rule frame_rules | simp add: inspect_file_fs)+)+
  then show ?thesis by (simp add: inspect_outputs_def split: option.split fentry.split)
qed

theorem inspect_empty_file_aborts_witness:
  "fs \<lparr>fs = [path_join INSPECT_DIR (U ''a.json'') \<mapsto> File []], console = [], requests = []\<rparr>
      (path_join INSPECT_DIR (U ''a.json'')) = Some (File []) \<and>
   inspect_file (\<lambda>_. []) (U ''a.json'')
      \<lparr>fs = [path_join INSPECT_DIR (U ''a.json'') \<mapsto> File []], console = [], requests = []\<rparr> =
     Inl (JSONDecodeError, \<lparr>fs = [path_join INSPECT_DIR (U ''a.json'') \<mapsto> File []], console = [], requests = []\<rparr>)"
proof -
  have h: "fs \<lparr>fs = [path_join INSPECT_DIR (U ''a.json'') \<mapsto> File []], console = [], requests = []\<rparr>
      (path_join INSPECT_DIR (U ''a.json'')) = Some (File [])" by simp
  show ?thesis using h inspect_empty_file_aborts [OF h] by blast
qed

end
