(* ===== verification/Spec2Isabelle.thy ===== *)
theory Spec2Isabelle
  imports Inspector
begin

text \<open>
  A verification library for QuizGrinder: \<open>src/pdf_to_json.py\<close> sends every PDF
  of \<open>./pdfs\<close> to a remote language model with a prompt, decodes the reply as
  JSON, validates it against three pydantic models and saves the validated exam set
  as pretty-printed JSON under \<open>./json\<close>; \<open>src/inspect_outputs.py\<close> prints a
  summary line per saved file.

  \<^bold>\<open>Theories.\<close>
  \<^item> \<open>Prelude\<close>: code-point strings (\<open>ustr = nat list\<close>, Python's \<open>str\<close>), bytes
    (\<open>8 word list\<close>), character classes, \<open>str(int)\<close> and its inverse.
  \<^item> \<open>Json\<close>: the decoded values (\<open>pyval\<close>); \<open>json.loads\<close> as CPython's scanner
    (\<open>scan_value\<close>, \<open>scan_elems\<close>, \<open>scan_members\<close>, string escapes and surrogate
    pairs, numbers, the constants \<open>NaN\<close>/\<open>Infinity\<close>, duplicate keys overwriting);
    \<open>model_dump_json(indent=2, ensure_ascii=False)\<close> as \<open>dump\<close>. The scanner is a
    fuel-indexed function; \<open>json_loads\<close> gives it \<open>2 * length s + 1\<close> units, and
    \<open>scan_value_fuel_enough\<close> shows that every call consumes input or ends, so this
    fuel is never exhausted and the model never returns a result the real scanner
    would not.
  \<^item> \<open>Schema\<close>: the models \<open>Options\<close>, \<open>ExamProblem\<close>, \<open>ExamSet\<close> (lines 12--31)
    as records, \<open>ExamSet.model_validate\<close> in pydantic's lax mode with every error
    collected and located, and the records' dump to JSON values.
  \<^item> \<open>Paths\<close>: \<open>os.path.basename\<close>, \<open>os.path.splitext\<close>, \<open>os.path.join\<close> and the
    output path of lines 45--51.
  \<^item> \<open>Utf8\<close>: the strict UTF-8 encoder used by \<open>open(..., encoding='utf-8')\<close> and the
    console (a lone surrogate makes it fail), and the strict decoder used when a file
    is read in text mode (overlong forms, surrogates and truncated sequences refused).
  \<^item> \<open>Extractor\<close>: \<open>extract_exams_from_pdf\<close> (lines 36--145) and the \<open>__main__\<close>
    block (lines 149--167). The effects are explicit: a \<open>world\<close> record holds the
    file system (path to file or directory), the console lines and the requests sent;
    an \<open>env\<close> holds the remote service's answer to each call, whether
    \<open>genai.Client()\<close> succeeds and the directory listing. A statement is an action
    \<open>world \<Rightarrow> (exc \<times> world) + ('a \<times> world)\<close>; \<open>act_bind\<close> sequences, \<open>act_try\<close>
    is \<open>try/except\<close>, every raise of the source is an \<open>Inl\<close>. Frame properties are
    proved once per statement form (\<open>frame_rules\<close>: bind, try, if, return, raise,
    each instantiated for the relations \<open>fs_within\<close>, \<open>fs_grows\<close>, \<open>req_ext\<close>
    and equality of the file system or of the requests) and composed.
  \<^item> \<open>Inspector\<close>: \<open>src/inspect_outputs.py\<close> on the same world: the listing of
    \<open>./out\<close>, text-mode reading (UTF-8, universal newlines), \<open>json.load\<close>, Python's
    subscripts, \<open>len\<close>, \<open>str\<close> and \<open>+\<close> on the decoded values, and the summary
    print. \<open>str\<close> of a float, list or dict is \<open>repr\<close>'s text, a parameter of the
    model (\<open>repr_other\<close>).

  \<^bold>\<open>Properties.\<close> The extractor saves exactly the UTF-8 encoding of the validated
  exam set's dump (C1), and that file reads back to the same exam set (C2, combining
  the printer/scanner round trip of \<open>Json\<close> with the validation round trip of
  \<open>Schema\<close>). It never changes an existing entry (C3) nor any path but its output
  (C4), writes only after decoding and validation succeed (C5), skips a file whose
  output exists (C6, C13), and sends at most one request, carrying the input's bytes
  and the prompt (C11). The batch keeps these properties (C9, C10), sends at most one
  request per file (C12) and runs to the end when the client can be built and the
  paths are printable (C8). Error behaviour: a client failure or an existing regular
  file \<open>./json\<close> stops the run (C14, C15); validation errors are located (C16,
  C17); pydantic's coercions into the \<open>int\<close> fields (C18, C19). The output path is a
  child of \<open>./json\<close> (C20); the dump is writable exactly when its strings are
  encodable (C22); UTF-8 round trip (C23). Across programs: a saved file read by the
  inspector gives the summary line (C24); an empty file ends the inspector (C25), which
  never writes (C26) and, reading \<open>./out\<close>, never sees what the extractor wrote
  under \<open>./json\<close> (C27).

  \<^bold>\<open>Findings.\<close> The output file is opened (truncated) before the dump is written:
  a validated exam set whose strings hold a lone surrogate (which \<open>json.loads\<close>
  accepts from a \<open>\ud800\<close> escape) leaves an empty output file, and every later
  run skips the input (C7); the inspector would then stop at that file (C25). Inputs
  with the same stem share one output path, so only the first is processed (C21). The
  inspector reads \<open>./out\<close>, where the extractor writes nothing (C27), and
  separates the count from the key by a space (C24).

  \<^bold>\<open>Not modelled.\<close> The remote model is not modelled beyond its answers (an
  arbitrary function of the call number and the request); the JSON schema passed in
  the request configuration and the PDF contents do not affect the program's own
  logic. IEEE floats are represented exactly as decimal mantissa and exponent (the exam
  records hold no float); Python's recursion limit in the decoder and the
  4300-digit limit of \<open>int(str)\<close> of the decoder are not modelled. Console output is
  assumed strict UTF-8 and the locale encoding of \<open>open(f)\<close> UTF-8. Directory
  listings are parameters (their order is the platform's). Python's \<open>repr\<close> of
  floats and containers (used by the inspector's \<open>str\<close> on a non-integer year) depends
  on Unicode tables and is left as a parameter.

  \<^bold>\<open>Known divergences.\<close>
  \<^item> \<open>dump\<close> prints a finite float as mantissa, \<open>e\<close>, exponent (\<open>15e-1\<close> where
    pydantic prints \<open>1.5\<close>); the exam records hold no float, so the program never
    prints one. \<open>dump\<close> prints a lone surrogate, where pydantic-core's
    \<open>model_dump_json\<close> most likely raises already: the model places that failure
    in the encoding of \<open>f.write\<close> (C7). In both places the file was opened at line
    121 first, so the empty file left behind is the same; only the moment of the
    raise differs.
  \<^item> \<open>open_write\<close> (line 121) does not check that \<open>./json\<close> exists: the file
    system is a flat map from paths to entries. In a run of the script
    \<open>os.makedirs\<close> (line 156) has made the directory, or raised (C15), before any
    open; the example world of the witnesses contains \<open>./json\<close>.
  \<^item> The constant header prints of lines 111 and 115 are not separate events:
    \<open>EvParsed\<close> stands for lines 111--112 and the sample lines for 116--118.
  \<^item> \<open>float_as_int\<close> works on exact decimals, not IEEE doubles: it accepts
    \<open>9223372036854775807.0\<close>, which a double rounds to \<open>2^63\<close> and pydantic
    refuses. \<open>str_as_int\<close> counts code points where pydantic counts bytes.
\<close>

text \<open>
  C2: a file the extractor saved holds the UTF-8 encoding of a JSON text that
  \<open>json.loads\<close> and \<open>ExamSet.model_validate\<close> read back as the exam set it returned.
\<close>

theorem saved_file_reloads:
  assumes "extract_exams_from_pdf env fp w = Inr (Some es, w')"
  shows "\<exists>b. fs w' (output_filepath fp) = Some (File b) \<and>
    utf8_encode (model_dump_json (dump_exam_set es)) = Some b \<and>
    json_loads (model_dump_json (dump_exam_set es)) = Some (dump_exam_set es) \<and>
    model_validate (dump_exam_set es) = Inr es"
  using extract_Some [OF assms]
  by (auto simp: model_dump_json_def json_loads_dump dump_ok_exam_set model_validate_dump)

theorem saved_file_reloads_witness:
  "\<exists>w'. extract_exams_from_pdf (ex_env (U ''a.pdf'')) ex_path ex_world =
     Inr (Some (ex_set (U ''a.pdf'')), w') \<and>
   (\<exists>b. fs w' (output_filepath ex_path) = Some (File b) \<and>
     json_loads (model_dump_json (dump_exam_set (ex_set (U ''a.pdf'')))) =
       Some (dump_exam_set (ex_set (U ''a.pdf''))))"
proof -
  obtain b w' where run: "extract_exams_from_pdf (ex_env (U ''a.pdf'')) ex_path ex_world =
      Inr (Some (ex_set (U ''a.pdf'')), w')"
    by (rule ex_saved)
  show ?thesis using run saved_file_reloads [OF run] by blast
qed

subsection \<open>The extractor's output seen by the inspector\<close>

lemma makedirs_within: "p \<in> S \<Longrightarrow> fs_within S w (wof (makedirs p w))"
  by (simp add: makedirs_def fs_within_def split: option.split fentry.split)

lemma listdir_world [simp]: "wof (listdir env p w) = w"
  by (simp add: listdir_def split: option.split fentry.split)

lemma main_block_within:
  "fs_within (insert OUT_DIR (range (\<lambda>f. output_filepath (input_path f)))) w (wof (main_block env w))"
proof -
  have bl: "fs_within (insert OUT_DIR (range (\<lambda>f. output_filepath (input_path f)))) w
          (wof (batch_loop env n i files w))" for n i files w
    by (rule fs_within_mono [OF batch_within [OF subset_UNIV]]) auto
  show ?thesis
    unfolding main_block_def by (rule frame_rules | simp add: makedirs_within | rule bl)+
qed

lemma inspect_dir_not_written: "INSPECT_DIR \<notin> insert OUT_DIR (range (\<lambda>f. output_filepath (input_path f)))"
  by (auto simp: output_filepath_in_out_dir INSPECT_DIR_def OUT_DIR_def)

text \<open>
  C24: a file the extractor saved, once placed in \<open>./out\<close>, makes the inspector print
  the number of problems, a space, and the key \<open>year-exam_number\<close>, a tab and the
  source of the first problem.
\<close>

theorem saved_file_summary:
  assumes "extract_exams_from_pdf env fp w = Inr (Some es, w')"
    and "problems es = p # ps"
    and "fs w'' (path_join INSPECT_DIR f) = fs w' (output_filepath fp)"
  shows "inspect_file r f w'' =
    Inr ((), w''\<lparr>console := console w'' @
      [EvSummary (show_nat (Suc (length ps)) @ 32 # show_int (year p) @ 45 # exam_number p @ 9 # source p)]\<rparr>)"
proof -
  obtain b where "fs w' (output_filepath fp) = Some (File b)"
      "utf8_encode (model_dump_json (dump_exam_set es)) = Some b"
    using extract_Some [OF assms(1)] by auto
  then show ?thesis using inspect_file_dump assms(2,3) by metis
qed

theorem saved_file_summary_witness:
  "\<exists>w'. extract_exams_from_pdf (ex_env (U ''a.pdf'')) ex_path ex_world = Inr (Some (ex_set (U ''a.pdf'')), w') \<and>
     (\<exists>w3. inspect_file (\<lambda>_. []) (U ''a.json'')
        (w'\<lparr>fs := (fs w')(path_join INSPECT_DIR (U ''a.json'') := fs w' (output_filepath ex_path))\<rparr>) = Inr ((), w3))"
proof -
  obtain b w' where run: "extract_exams_from_pdf (ex_env (U ''a.pdf'')) ex_path ex_world =
      Inr (Some (ex_set (U ''a.pdf'')), w')"
    by (rule ex_saved)
  have ps: "problems (ex_set (U ''a.pdf'')) = ex_problem (U ''a.pdf'') # []" by (simp add: ex_set_def)
  have loc: "fs (w'\<lparr>fs := (fs w')(path_join INSPECT_DIR (U ''a.json'') := fs w' (output_filepath ex_path))\<rparr>)
      (path_join INSPECT_DIR (U ''a.json'')) = fs w' (output_filepath ex_path)" by simp
  show ?thesis using run saved_file_summary [OF run ps loc, of "\<lambda>_. []"] by blast
qed

text \<open>
  C27: the inspector reads \<open>./out\<close> but the extractor's run creates only \<open>./json\<close>
  and files under it: when \<open>./out\<close> did not exist before the run, the inspector fails
  with \<open>FileNotFoundError\<close> after it.
\<close>

theorem inspector_misses_extractor_output:
  assumes "fs w INSPECT_DIR = None"
  shows "inspect_outputs r names (wof (main_block env w)) = Inl (FileNotFoundError, wof (main_block env w))"
proof -
  have "fs (wof (main_block env w)) INSPECT_DIR = None"
    using main_block_within [of w env] inspect_dir_not_written assms by (simp add: fs_within_def)
  then show ?thesis by (simp add: inspect_outputs_def)
qed

theorem inspector_misses_extractor_output_witness:
  "fs ex_world INSPECT_DIR = None \<and>
   inspect_outputs (\<lambda>_. []) [] (wof (main_block (ex_env (U ''a.pdf'')) ex_world)) =
     Inl (FileNotFoundError, wof (main_block (ex_env (U ''a.pdf'')) ex_world))"
proof -
  have h: "fs ex_world INSPECT_DIR = None"
    by (simp add: ex_world_def ex_path_def input_path_def IN_DIR_def OUT_DIR_def INSPECT_DIR_def)
  show ?thesis using h inspector_misses_extractor_output [OF h] by blast
qed

end
